theory Spec2Isabelle
  imports Main "HOL-Library.Char_ord" "HOL-Library.List_Lexorder" "HOL-Library.Multiset"
    "HOL-Library.AList"
begin

section \<open>Strings of the Go standard library\<close>

text \<open>
  A Go string is a byte sequence; it is modelled as \<^typ>\<open>string\<close>. The functions of
  this section are the standard library functions that \<^verbatim>\<open>router.go\<close> and the language
  negotiator call, written after their documentation.
\<close>

text \<open>\<^verbatim>\<open>strings.Split(s, sep)\<close> for a one-byte separator: the pieces between
  the separators, empty pieces included; never an empty list.\<close>

fun strings_Split :: "char \<Rightarrow> string \<Rightarrow> string list" where
  "strings_Split c [] = [[]]"
| "strings_Split c (x # xs) =
     (if x = c then [] # strings_Split c xs
      else (case strings_Split c xs of
              [] \<Rightarrow> [[x]]
            | y # ys \<Rightarrow> (x # y) # ys))"

text \<open>\<^verbatim>\<open>strings.SplitN(s, sep, 2)\<close> for a one-byte separator: the string cut at the
  first separator, or the string alone when it holds none.\<close>

definition strings_SplitN2 :: "char \<Rightarrow> string \<Rightarrow> string list" where
  "strings_SplitN2 c s =
     (if c \<in> set s then [takeWhile (\<lambda>x. x \<noteq> c) s, tl (dropWhile (\<lambda>x. x \<noteq> c) s)]
      else [s])"

text \<open>\<^verbatim>\<open>strings.TrimSpace\<close>, on the ASCII white space (tab, line feed, vertical
  tab, form feed, carriage return, space). The multi-byte Unicode spaces that Go also trims
  are left in place by the model.\<close>

definition isSpace :: "char \<Rightarrow> bool" where
  "isSpace c = (c \<in> set [CHR 0x09, CHR 0x0A, CHR 0x0B, CHR 0x0C, CHR 0x0D, CHR '' ''])"

definition strings_TrimSpace :: "string \<Rightarrow> string" where
  "strings_TrimSpace s = rev (dropWhile isSpace (rev (dropWhile isSpace s)))"

definition strings_HasPrefix :: "string \<Rightarrow> string \<Rightarrow> bool" where
  "strings_HasPrefix s p = (take (length p) s = p)"

text \<open>\<^verbatim>\<open>strings.Join(elems, sep)\<close>.\<close>

fun strings_Join :: "string list \<Rightarrow> string \<Rightarrow> string" where
  "strings_Join [] sep = []"
| "strings_Join [x] sep = x"
| "strings_Join (x # y # ys) sep = x @ sep @ strings_Join (y # ys) sep"

text \<open>\<^verbatim>\<open>strings.ToLower\<close> on ASCII letters; other bytes are kept.\<close>

definition toLowerChar :: "char \<Rightarrow> char" where
  "toLowerChar c =
     (if CHR ''A'' \<le> c \<and> c \<le> CHR ''Z'' then char_of (of_char c + (32::nat)) else c)"

definition strings_ToLower :: "string \<Rightarrow> string" where
  "strings_ToLower s = map toLowerChar s"

text \<open>
  \<^verbatim>\<open>path/filepath.Clean\<close> on a slash-separated path: empty and \<^verbatim>\<open>.\<close> elements go,
  an inner \<^verbatim>\<open>..\<close> goes with the element before it, a \<^verbatim>\<open>..\<close> at the start of a
  rooted path goes, and the empty result is \<^verbatim>\<open>.\<close>. The stack is kept reversed.
\<close>

fun cleanElems :: "bool \<Rightarrow> string list \<Rightarrow> string list \<Rightarrow> string list" where
  "cleanElems rooted stack [] = rev stack"
| "cleanElems rooted stack (e # es) =
     (if e = [] \<or> e = ''.'' then cleanElems rooted stack es
      else if e = ''..'' then
        (case stack of
           [] \<Rightarrow> (if rooted then cleanElems rooted [] es else cleanElems rooted [''..''] es)
         | t # ts \<Rightarrow> (if t = ''..'' then cleanElems rooted (''..'' # stack) es
                      else cleanElems rooted ts es))
      else cleanElems rooted (e # stack) es)"

definition filepath_Clean :: "string \<Rightarrow> string" where
  "filepath_Clean p =
     (let rooted = (p \<noteq> [] \<and> hd p = CHR ''/'');
          out = (if rooted then ''/'' else []) @
                strings_Join (cleanElems rooted [] (strings_Split CHR ''/'' p)) ''/''
      in if out = [] then ''.'' else out)"

text \<open>\<^verbatim>\<open>path/filepath.Join\<close>: leading empty elements are skipped, the rest is joined
  with slashes and cleaned; the empty string when every element is empty.\<close>

definition filepath_Join :: "string list \<Rightarrow> string" where
  "filepath_Join elems =
     (case dropWhile (\<lambda>e. e = []) elems of
        [] \<Rightarrow> []
      | e # es \<Rightarrow> filepath_Clean (strings_Join (e # es) ''/''))"


section \<open>The response buffer\<close>

text \<open>
  \<^verbatim>\<open>ResponseWriter\<close> holds the header map, the status code (0 when none was written)
  and the body bytes. A header map \<^verbatim>\<open>map[string][]string\<close> is a partial function.
\<close>

type_synonym http_Header = "string \<rightharpoonup> string list"

record ResponseWriter =
  header :: http_Header
  code :: int
  buffer :: string

definition NewResponseWriter :: ResponseWriter where
  "NewResponseWriter = \<lparr>header = Map.empty, code = 0, buffer = []\<rparr>"

definition Header_Set :: "string \<Rightarrow> string \<Rightarrow> ResponseWriter \<Rightarrow> ResponseWriter" where
  "Header_Set k v rw = rw\<lparr>header := (header rw)(k \<mapsto> [v])\<rparr>"

definition Header_Add :: "string \<Rightarrow> string \<Rightarrow> ResponseWriter \<Rightarrow> ResponseWriter" where
  "Header_Add k v rw =
     rw\<lparr>header := (header rw)(k \<mapsto> (case header rw k of None \<Rightarrow> [v] | Some vs \<Rightarrow> vs @ [v]))\<rparr>"

definition Header_Del :: "string \<Rightarrow> ResponseWriter \<Rightarrow> ResponseWriter" where
  "Header_Del k rw = rw\<lparr>header := (header rw)(k := None)\<rparr>"

text \<open>\<^verbatim>\<open>Header.Get\<close>: the first value of the key, or the empty string.\<close>

definition Header_Get :: "http_Header \<Rightarrow> string \<Rightarrow> string" where
  "Header_Get h k = (case h k of None \<Rightarrow> [] | Some [] \<Rightarrow> [] | Some (v # _) \<Rightarrow> v)"

definition WriteHeader :: "int \<Rightarrow> ResponseWriter \<Rightarrow> ResponseWriter" where
  "WriteHeader c rw = rw\<lparr>code := c\<rparr>"

definition Write :: "string \<Rightarrow> ResponseWriter \<Rightarrow> ResponseWriter" where
  "Write buf rw = rw\<lparr>buffer := buffer rw @ buf\<rparr>"

definition Reset :: "ResponseWriter \<Rightarrow> ResponseWriter" where
  "Reset rw = rw\<lparr>code := 0, header := Map.empty, buffer := []\<rparr>"

text \<open>
  \<^verbatim>\<open>Copy\<close> commits the buffer to the transport \<open>dst\<close>: every header value is added,
  the status is written when it is not 0, and the body is written. The transport is taken
  to be a writer of the same kind, as in the repository's own test of \<^verbatim>\<open>Copy\<close>; its
  \<^verbatim>\<open>Write\<close> does not fail.
\<close>

definition Copy :: "ResponseWriter \<Rightarrow> ResponseWriter \<Rightarrow> ResponseWriter" where
  "Copy rw dst =
     (let h = (\<lambda>k. case header rw k of
                      None \<Rightarrow> header dst k
                    | Some vs \<Rightarrow> (if vs = [] then header dst k
                                 else Some ((case header dst k of None \<Rightarrow> [] | Some ws \<Rightarrow> ws) @ vs)));
          d1 = dst\<lparr>header := h\<rparr>;
          d2 = (if code rw \<noteq> 0 then WriteHeader (code rw) d1 else d1)
      in Write (buffer rw) d2)"

section \<open>Helpers of net/http\<close>

definition http_StatusText :: "int \<Rightarrow> string" where
  "http_StatusText c =
     (if c = 301 then ''Moved Permanently''
      else if c = 307 then ''Temporary Redirect''
      else if c = 308 then ''Permanent Redirect''
      else if c = 404 then ''Not Found''
      else if c = 405 then ''Method Not Allowed''
      else if c = 408 then ''Request Timeout''
      else if c = 500 then ''Internal Server Error''
      else [])"

text \<open>\<^verbatim>\<open>http.Error\<close>: a plain-text content type, the status, the message and a
  line feed.\<close>

definition http_Error :: "string \<Rightarrow> int \<Rightarrow> ResponseWriter \<Rightarrow> ResponseWriter" where
  "http_Error msg c w =
     Write (msg @ [CHR 0x0A])
       (WriteHeader c
          (Header_Set ''X-Content-Type-Options'' ''nosniff''
             (Header_Set ''Content-Type'' ''text/plain; charset=utf-8'' w)))"

definition http_NotFound :: "ResponseWriter \<Rightarrow> ResponseWriter" where
  "http_NotFound w = http_Error ''404 page not found'' 404 w"

text \<open>
  \<^verbatim>\<open>http.Redirect\<close> for a rooted target that needs neither cleaning nor escaping: the
  \<^verbatim>\<open>Location\<close> header, a content type for GET and HEAD when none was set, the status,
  and for GET a short HTML body.
\<close>

definition http_Redirect :: "string \<Rightarrow> string \<Rightarrow> int \<Rightarrow> ResponseWriter \<Rightarrow> ResponseWriter" where
  "http_Redirect method url c w =
     (let hadCT = (header w ''Content-Type'' \<noteq> None);
          w1 = Header_Set ''Location'' url w;
          w2 = (if \<not> hadCT \<and> (method = ''GET'' \<or> method = ''HEAD'')
                then Header_Set ''Content-Type'' ''text/html; charset=utf-8'' w1 else w1);
          w3 = WriteHeader c w2
      in if \<not> hadCT \<and> method = ''GET''
         then Write (''<a href='' @ [CHR 0x22] @ url @ [CHR 0x22] @ ''>'' @ http_StatusText c @
                     ''</a>.'' @ [CHR 0x0A, CHR 0x0A]) w3
         else w3)"

section \<open>Requests and handlers\<close>

record Param =
  Key :: string
  Value :: string

type_synonym Params = "Param list"

text \<open>
  A request: method, URL path, request headers, and the two values the router keeps in
  the request context (under the keys \<^verbatim>\<open>"Params"\<close> and \<^verbatim>\<open>"UASelectedLang"\<close>), absent
  or nil being \<open>None\<close>. The URL has a path only, so \<^verbatim>\<open>req.URL.String()\<close> is the path.
\<close>

record Request =
  Method :: string
  URL_Path :: string
  ReqHeader :: http_Header
  ctx_Params :: "Params option"
  ctx_UASelectedLang :: "string option"

definition URL_String :: "Request \<Rightarrow> string" where
  "URL_String req = URL_Path req"

definition Parameters :: "Request \<Rightarrow> Params option" where
  "Parameters req = ctx_Params req"

definition ContentLang :: "Request \<Rightarrow> string" where
  "ContentLang req = (case ctx_UASelectedLang req of Some l \<Rightarrow> l | None \<Rightarrow> [])"

text \<open>
  A handler is user code: what the router sees of it is the sequence of calls it makes on
  the response writer it was given, which may end in a panic. A handler is therefore a
  function from the request to that sequence.
\<close>

datatype haction =
    HWrite string
  | HWriteHeader int
  | HHeaderSet string string
  | HHeaderAdd string string
  | HHeaderDel string
  | HPanic string

type_synonym HandlerFunc = "Request \<Rightarrow> haction list"

fun applyAction :: "haction \<Rightarrow> ResponseWriter \<Rightarrow> ResponseWriter" where
  "applyAction (HWrite b) w = Write b w"
| "applyAction (HWriteHeader c) w = WriteHeader c w"
| "applyAction (HHeaderSet k v) w = Header_Set k v w"
| "applyAction (HHeaderAdd k v) w = Header_Add k v w"
| "applyAction (HHeaderDel k) w = Header_Del k w"
| "applyAction (HPanic v) w = w"

text \<open>Running a handler in the caller's own goroutine: the calls up to the first panic
  take effect; the panic value is returned with the writer.\<close>

fun runActs :: "haction list \<Rightarrow> ResponseWriter \<Rightarrow> ResponseWriter \<times> string option" where
  "runActs [] w = (w, None)"
| "runActs (HPanic v # as) w = (w, Some v)"
| "runActs (a # as) w = runActs as (applyAction a w)"


section \<open>The language negotiator\<close>

text \<open>
  What the code takes from the Go runtime and cannot be written as a function of the
  program's input is a parameter of the model:
  \<^item> \<open>parseQ\<close>: \<^verbatim>\<open>strconv.ParseFloat(s, 64)\<close> followed by \<^verbatim>\<open>int32(f * 1000.0)\<close>, a
    floating-point computation; \<open>Inl\<close> is the parse error;
  \<^item> \<open>sortSort\<close>: \<^verbatim>\<open>sort.Sort\<close> on a \<^verbatim>\<open>TypeParams\<close> value, whose algorithm the
    library leaves open;
  \<^item> \<open>mapRange\<close>: the order in which \<^verbatim>\<open>range\<close> visits the values of a map, given
    the values in the order of their insertion.
\<close>

record TypeParam =
  Type :: string
  Q :: int

type_synonym TypeParams = "TypeParam list"

record GoEnv =
  parseQ :: "string \<Rightarrow> string + int"
  sortSort :: "TypeParams \<Rightarrow> TypeParams"
  mapRange :: "TypeParams \<Rightarrow> TypeParams"

text \<open>The quality \<^verbatim>\<open>Q\<close> is an \<^verbatim>\<open>int32\<close> that the code only compares and copies;
  it is an \<^typ>\<open>int\<close> here.\<close>

definition less :: "TypeParam \<Rightarrow> TypeParam \<Rightarrow> bool" where
  "less l r =
     (if Type l = ''*/*'' \<or> Type l = ''*'' then True
      else if Q l = Q r then
        (if Type l = Type r then False
         else
           (let si = strings_SplitN2 CHR ''/'' (Type l);
                sj = strings_SplitN2 CHR ''/'' (Type r)
            in if length si = 2 \<and> length sj = 2 then
                 (if si ! 0 = sj ! 0 then
                    (if si ! 1 = ''*'' then False
                     else length (strings_Split CHR '';'' (si ! 1))
                            < length (strings_Split CHR '';'' (sj ! 1)))
                  else False)
               else (if length (Type l) < length (Type r) then True else False)))
      else Q l < Q r)"

definition Less :: "TypeParams \<Rightarrow> nat \<Rightarrow> nat \<Rightarrow> bool" where
  "Less tps i j = (\<not> less (tps ! i) (tps ! j))"

text \<open>\<^verbatim>\<open>sort.IsSorted\<close>: no element is \<^verbatim>\<open>Less\<close> than the one before it; the loop
  runs from the last index down to 1.\<close>

fun isSortedFrom :: "nat \<Rightarrow> TypeParams \<Rightarrow> bool" where
  "isSortedFrom 0 tps = True"
| "isSortedFrom (Suc i) tps = (if Less tps (Suc i) i then False else isSortedFrom i tps)"

definition sort_IsSorted :: "TypeParams \<Rightarrow> bool" where
  "sort_IsSorted tps = isSortedFrom (length tps - 1) tps"

text \<open>\<^verbatim>\<open>sort.Search(n, f)\<close>: the binary search of the library, which trusts \<open>f\<close> to be
  false and then true.\<close>

function searchLoop :: "(nat \<Rightarrow> bool) \<Rightarrow> nat \<Rightarrow> nat \<Rightarrow> nat" where
  "searchLoop f i j =
     (if i < j then
        (let h = (i + j) div 2
         in if \<not> f h then searchLoop f (h + 1) j else searchLoop f i h)
      else i)"
  by pat_completeness auto
termination
  by (relation "measure (\<lambda>(f, i, j). j - i)") auto

definition sort_Search :: "nat \<Rightarrow> (nat \<Rightarrow> bool) \<Rightarrow> nat" where
  "sort_Search n f = searchLoop f 0 n"

definition IsPresent :: "TypeParams \<Rightarrow> string \<Rightarrow> bool" where
  "IsPresent tps t =
     (let i = sort_Search (length tps) (\<lambda>i. Type (tps ! i) = t)
      in i < length tps \<and> Type (tps ! i) = t)"

text \<open>The parameters of one entry, after its type: \<^verbatim>\<open>q=\<close> sets the quality, any other
  \<^verbatim>\<open>key=value\<close> is kept in the type, anything else fails the parse.\<close>

fun parseParams :: "GoEnv \<Rightarrow> string \<Rightarrow> int \<Rightarrow> string list \<Rightarrow> string + TypeParam" where
  "parseParams env strType quality [] = Inr \<lparr>Type = strType, Q = quality\<rparr>"
| "parseParams env strType quality (m0 # ms) =
     (let m = strings_TrimSpace m0
      in if strings_HasPrefix m ''q='' then
           (case parseQ env (strings_SplitN2 CHR ''='' m ! 1) of
              Inl e \<Rightarrow> Inl e
            | Inr q \<Rightarrow> parseParams env strType q ms)
         else if length (strings_SplitN2 CHR ''='' m) < 2 then Inl ''small token value string''
         else parseParams env (strType @ '';'' @ m) quality ms)"

definition parseEntry :: "GoEnv \<Rightarrow> string \<Rightarrow> string + TypeParam" where
  "parseEntry env mp =
     (let mps = strings_Split CHR '';'' mp
      in if length mps = 1 then Inr \<lparr>Type = strings_TrimSpace (mps ! 0), Q = 1000\<rparr>
         else parseParams env (strings_TrimSpace (mps ! 0)) 1000 (tl mps))"

fun parseEntries :: "GoEnv \<Rightarrow> string list \<Rightarrow> string + TypeParams" where
  "parseEntries env [] = Inr []"
| "parseEntries env (mp # mps) =
     (case parseEntry env mp of
        Inl e \<Rightarrow> Inl e
      | Inr tp \<Rightarrow> (case parseEntries env mps of
                    Inl e \<Rightarrow> Inl e
                  | Inr tps \<Rightarrow> Inr (tp # tps)))"

definition sortIfNeeded :: "GoEnv \<Rightarrow> TypeParams \<Rightarrow> TypeParams" where
  "sortIfNeeded env tps = (if \<not> sort_IsSorted tps then sortSort env tps else tps)"

definition Parse :: "GoEnv \<Rightarrow> string \<Rightarrow> string + TypeParams" where
  "Parse env s =
     (if length s = 0 then Inl ''invalid type/parameter''
      else (case parseEntries env (strings_Split CHR '','' s) of
              Inl e \<Rightarrow> Inl e
            | Inr tps \<Rightarrow> Inr (sortIfNeeded env tps)))"

text \<open>
  The fallback map \<^verbatim>\<open>tpdmap\<close> of \<^verbatim>\<open>ParseLang\<close>, as an association list in the order
  of insertion. A later region variant of a language raises the quality of the entry made
  for the first one.
\<close>

fun tpdmapLoop :: "TypeParams \<Rightarrow> (string \<times> TypeParam) list \<Rightarrow> TypeParams
    \<Rightarrow> (string \<times> TypeParam) list" where
  "tpdmapLoop tps tpdmap [] = tpdmap"
| "tpdmapLoop tps tpdmap (tp # rest) =
     (let s = strings_SplitN2 CHR ''-'' (Type tp)
      in if length s > 1 then
           (if \<not> IsPresent tps (s ! 0) then
              (case map_of tpdmap (s ! 0) of
                 Some x \<Rightarrow>
                   (if Q tp > Q x
                    then tpdmapLoop tps (AList.update (s ! 0) (x\<lparr>Q := Q tp\<rparr>) tpdmap) rest
                    else tpdmapLoop tps tpdmap rest)
               | None \<Rightarrow> tpdmapLoop tps (tpdmap @ [(s ! 0, \<lparr>Type = s ! 0, Q = Q tp\<rparr>)]) rest)
            else tpdmapLoop tps tpdmap rest)
         else tpdmapLoop tps tpdmap rest)"

definition ParseLang :: "GoEnv \<Rightarrow> string \<Rightarrow> string + TypeParams" where
  "ParseLang env s =
     (case Parse env s of
        Inl e \<Rightarrow> Inl e
      | Inr tps \<Rightarrow>
          (let tpdmap = tpdmapLoop tps [] tps;
               tps2 = tps @ mapRange env (map snd tpdmap)
           in Inr (sortIfNeeded env tps2)))"

definition comptypes :: "string \<Rightarrow> string \<Rightarrow> bool" where
  "comptypes l r =
     (if l = r then True
      else
        (let ltp = strings_Split CHR '';'' (strings_ToLower l);
             rtp = strings_Split CHR '';'' (strings_ToLower r)
         in if length ltp = 0 \<or> length rtp = 0 then False
            else
              (let ls = strings_SplitN2 CHR ''/'' (ltp ! 0);
                   rs = strings_SplitN2 CHR ''/'' (rtp ! 0)
               in if length ls = 0 \<or> length rs = 0 then False
                  else if (length ls = 1 \<and> ls ! 0 = ''*'' \<and> length rs \<ge> 1)
                        \<or> (length ls = 2 \<and> length rs = 2 \<and> ls ! 0 = ''*'' \<and> ls ! 1 = ''*'')
                        \<or> (length ls = length rs \<and> length rs = 2 \<and> ls ! 0 = ''*''
                             \<and> ls ! 1 \<noteq> ''*'' \<and> rs ! 0 \<noteq> [] \<and> rs ! 0 \<noteq> '' ''
                             \<and> ls ! 1 = rs ! 1)
                        \<or> (length ls = length rs \<and> length rs = 2 \<and> ls ! 0 \<noteq> ''*''
                             \<and> ls ! 1 = ''*'' \<and> rs ! 1 \<noteq> [] \<and> rs ! 1 \<noteq> '' ''
                             \<and> ls ! 0 = rs ! 0)
                  then
                    (if length ltp < 2 \<and> length rtp < 2 then True
                     else if length ltp \<noteq> length rtp then False
                     else tl ltp = tl rtp)
                  else False)))"

fun rankType :: "TypeParams \<Rightarrow> string \<Rightarrow> int" where
  "rankType [] t = - 1"
| "rankType (tp # tps) t = (if comptypes (Type tp) t then Q tp else rankType tps t)"

text \<open>\<^verbatim>\<open>FindBest\<close> over the supported set, given as the list of its members in the
  order \<^verbatim>\<open>range\<close> visits them.\<close>

definition FindBest :: "TypeParams \<Rightarrow> string list \<Rightarrow> string" where
  "FindBest tps vs =
     (if length vs = 0 then []
      else Type (foldl (\<lambda>best s0.
                   (let s = strings_TrimSpace s0;
                        tp = \<lparr>Type = s, Q = rankType tps s\<rparr>
                    in if Q tp > - 1 \<and> less best tp then tp else best))
                 \<lparr>Type = [], Q = 0\<rparr> vs))"


section \<open>The router\<close>

text \<open>
  The prefix tree (\<^verbatim>\<open>node\<close>, \<^verbatim>\<open>addRoute\<close>, \<^verbatim>\<open>getValue\<close>,
  \<^verbatim>\<open>findCaseInsensitivePath\<close>, \<^verbatim>\<open>countParams\<close>) and \<^verbatim>\<open>CleanPath\<close> are called by
  \<^verbatim>\<open>router.go\<close> and defined in other files. The router is modelled over any tree
  type \<open>'n\<close> with these operations:
  \<^item> \<open>getValue n path collect\<close> is \<^verbatim>\<open>n.getValue(path, params)\<close>, \<open>collect\<close> telling
    whether \<^verbatim>\<open>params\<close> is the pool function or nil; the result is the handle, the
    parameters (nil is \<open>None\<close>), the i18n flag and the trailing-slash recommendation;
  \<^item> \<open>addRoute\<close> returns the grown tree or the message of its panic.
\<close>

record 'n TrieOps =
  emptyNode :: "'n"
  addRoute :: "'n \<Rightarrow> string \<Rightarrow> bool \<Rightarrow> HandlerFunc \<Rightarrow> string + 'n"
  getValue :: "'n \<Rightarrow> string \<Rightarrow> bool \<Rightarrow> HandlerFunc option \<times> Params option \<times> bool \<times> bool"
  findCaseInsensitivePath :: "'n \<Rightarrow> string \<Rightarrow> bool \<Rightarrow> string \<times> bool"
  countParams :: "string \<Rightarrow> nat"
  CleanPath :: "string \<Rightarrow> string"

text \<open>
  The router. \<open>trees\<close> is the map from method to tree as the list of its entries, in the
  order \<^verbatim>\<open>range\<close> visits them; \<open>SupportedLangs\<close> is the set of languages as the list of
  its members, likewise. The parameter pool only recycles slices and is left out; the
  \<^verbatim>\<open>Context\<close> hook is represented by what the derived context does (see \<open>Sched\<close>).
\<close>

record 'n Router =
  trees :: "(string \<times> 'n) list"
  maxParams :: nat
  RedirectTrailingSlash :: bool
  RedirectFixedPath :: bool
  HandleMethodNotAllowed :: bool
  HandleOPTIONS :: bool
  GlobalOPTIONS :: "HandlerFunc option"
  globalAllowed :: string
  NotFound :: "HandlerFunc option"
  MethodNotAllowed :: "HandlerFunc option"
  PanicHandler :: "(Request \<Rightarrow> string \<Rightarrow> haction list) option"
  SupportedLangs :: "string list"
  DefaultLang :: string

definition New :: "'n Router" where
  "New = \<lparr>trees = [], maxParams = 0,
          RedirectTrailingSlash = True, RedirectFixedPath = True,
          HandleMethodNotAllowed = True, HandleOPTIONS = True,
          GlobalOPTIONS = None, globalAllowed = [], NotFound = None,
          MethodNotAllowed = None, PanicHandler = None,
          SupportedLangs = [''en''], DefaultLang = []\<rparr>"

datatype fault = IndexOutOfRange | Panic string

definition splitPath :: "string \<Rightarrow> string list" where
  "splitPath path =
     map strings_TrimSpace (filter (\<lambda>elem. elem \<noteq> []) (strings_Split CHR ''/'' path))"

text \<open>The path that \<^verbatim>\<open>Lookup\<close> hands to the tree (lines 383 to 401); reading the last
  byte of an empty path is the index fault.\<close>

definition lookupPath :: "'n Router \<Rightarrow> string \<Rightarrow> fault + string" where
  "lookupPath r path =
     (if length path = 0 then Inl IndexOutOfRange
      else
        (let trailSlash = (last path = CHR ''/'');
             psplit = splitPath path
         in if DefaultLang r \<noteq> [] then
              (let path1 =
                     (if length psplit > 0 then
                        (if psplit ! 0 \<in> set (SupportedLangs r) then
                           (if length psplit > 1 then ''/'' @ filepath_Join (tl psplit) else path)
                         else path)
                      else path)
               in Inr (if trailSlash then path1 @ ''/'' else path1))
            else Inr path))"

definition Lookup :: "'n TrieOps \<Rightarrow> 'n Router \<Rightarrow> string \<Rightarrow> string
    \<Rightarrow> fault + (HandlerFunc option \<times> Params option \<times> bool)" where
  "Lookup T r method path0 =
     (case lookupPath r path0 of
        Inl e \<Rightarrow> Inl e
      | Inr path \<Rightarrow>
          (case map_of (trees r) method of
             Some root \<Rightarrow>
               (case getValue T root path True of
                  (None, ps, i18n, tsr) \<Rightarrow> Inr (None, None, tsr)
                | (Some handle, ps, i18n, tsr) \<Rightarrow> Inr (Some handle, ps, tsr))
           | None \<Rightarrow> Inr (None, None, False)))"

text \<open>
  The sort of \<^verbatim>\<open>allowed\<close> (lines 455 to 459): for each \<open>i\<close> from 1, the element at
  \<open>i\<close> is swapped towards the front while it is smaller than the one before it. The loops
  are those of the insertion sort of Go's \<^verbatim>\<open>sort\<close> package, so the comparison is a
  parameter: \<^verbatim>\<open>allowed\<close> compares strings with \<^verbatim>\<open><\<close>.
\<close>

fun insertionInner :: "('a \<Rightarrow> 'a \<Rightarrow> bool) \<Rightarrow> nat \<Rightarrow> 'a list \<Rightarrow> 'a list" where
  "insertionInner lt 0 xs = xs"
| "insertionInner lt (Suc j) xs =
     (if lt (xs ! Suc j) (xs ! j)
      then insertionInner lt j (xs[Suc j := xs ! j, j := xs ! Suc j])
      else xs)"

definition insertionSort :: "('a \<Rightarrow> 'a \<Rightarrow> bool) \<Rightarrow> 'a list \<Rightarrow> 'a list" where
  "insertionSort lt xs = foldl (\<lambda>ys i. insertionInner lt i ys) xs [1..<length xs]"

text \<open>What the inner loop computes, on the reversed prefix: the element is put behind the
  first element, from the back, that it is not smaller than. Only the proofs use it.\<close>

fun insRev :: "('a \<Rightarrow> 'a \<Rightarrow> bool) \<Rightarrow> 'a \<Rightarrow> 'a list \<Rightarrow> 'a list" where
  "insRev lt x [] = [x]"
| "insRev lt x (y # ys) = (if lt x y then y # insRev lt x ys else x # y # ys)"

definition sortAllowed :: "string list \<Rightarrow> string list" where
  "sortAllowed xs = insertionSort (\<lambda>a b. a < b) xs"

definition allowed :: "'n TrieOps \<Rightarrow> 'n Router \<Rightarrow> string \<Rightarrow> string \<Rightarrow> string" where
  "allowed T r path reqMethod =
     (if path = ''*'' \<and> reqMethod \<noteq> [] then globalAllowed r
      else
        (let allowed0 =
               (if path = ''*'' then
                  map fst (filter (\<lambda>(method, n). method \<noteq> ''OPTIONS'') (trees r))
                else
                  map fst (filter (\<lambda>(method, n).
                      \<not> (method = reqMethod \<or> method = ''OPTIONS'')
                      \<and> fst (getValue T n path False) \<noteq> None) (trees r)))
         in if length allowed0 > 0
            then strings_Join (sortAllowed (allowed0 @ [''OPTIONS''])) '', ''
            else []))"

text \<open>\<^verbatim>\<open>Handle\<close>: registration, with its panics as faults.\<close>

definition Handle :: "'n TrieOps \<Rightarrow> 'n Router \<Rightarrow> string \<Rightarrow> string \<Rightarrow> bool \<Rightarrow> HandlerFunc option
    \<Rightarrow> fault + 'n Router" where
  "Handle T r method path i18n handle =
     (if method = [] then Inl (Panic ''method must not be empty'')
      else if length path < 1 \<or> hd path \<noteq> CHR ''/''
        then Inl (Panic (''path must begin with '' @ [CHR 0x27] @ ''/'' @ [CHR 0x27]
                         @ '' in path '' @ [CHR 0x27] @ path @ [CHR 0x27]))
      else (case handle of
              None \<Rightarrow> Inl (Panic ''handle must not be nil'')
            | Some h \<Rightarrow>
                (let r1 = (case map_of (trees r) method of
                             Some root \<Rightarrow> r
                           | None \<Rightarrow>
                               (let r0 = r\<lparr>trees := trees r @ [(method, emptyNode T)]\<rparr>
                                in r0\<lparr>globalAllowed := allowed T r0 ''*'' []\<rparr>));
                     root = (case map_of (trees r1) method of
                               Some n \<Rightarrow> n | None \<Rightarrow> emptyNode T)
                 in case addRoute T root path i18n h of
                      Inl msg \<Rightarrow> Inl (Panic msg)
                    | Inr root2 \<Rightarrow>
                        (let r2 = r1\<lparr>trees := AList.update method root2 (trees r1)\<rparr>
                         in Inr (if countParams T path > maxParams r2
                                 then r2\<lparr>maxParams := countParams T path\<rparr> else r2)))))"

subsection \<open>Language resolution\<close>

definition acceptedLanguage :: "GoEnv \<Rightarrow> 'n Router \<Rightarrow> Request \<Rightarrow> string" where
  "acceptedLanguage env r req =
     (let params = Header_Get (ReqHeader req) ''Accept-Language''
      in if params = [] then []
         else (case ParseLang env (strings_ToLower params) of
                 Inl e \<Rightarrow> []
               | Inr parsed \<Rightarrow> FindBest parsed (SupportedLangs r)))"

definition redirLang :: "ResponseWriter \<Rightarrow> Request \<Rightarrow> string \<Rightarrow> ResponseWriter \<times> Request" where
  "redirLang w req lang =
     (let c = (if Method req \<noteq> ''GET'' then 307 else 301);
          req1 = req\<lparr>URL_Path := ''/'' @ lang @ URL_Path req\<rparr>
      in (http_Redirect (Method req1) (URL_String req1) c w, req1))"

definition selectLang :: "GoEnv \<Rightarrow> 'n Router \<Rightarrow> ResponseWriter \<Rightarrow> Request
    \<Rightarrow> ResponseWriter \<times> Request \<times> string" where
  "selectLang env r w req =
     (let path = URL_Path req;
          lang = acceptedLanguage env r req;
          selectedLang = (if lang \<noteq> [] then lang else DefaultLang r)
      in if URL_String req \<noteq> ''*'' then
           (let trailSlash = (length path > 0 \<and> last path = CHR ''/'');
                psplit = splitPath path
            in if length psplit > 0 then
                 (let candidate = psplit ! 0
                  in if candidate \<in> set (SupportedLangs r) then
                       (let path1 =
                              (if length psplit > 1
                               then (let p = ''/'' @ filepath_Join (tl psplit)
                                     in if trailSlash then p @ ''/'' else p)
                               else ''/'')
                        in (w, req\<lparr>ctx_UASelectedLang := Some candidate\<rparr>, path1))
                     else
                       (case redirLang w (req\<lparr>ctx_UASelectedLang := Some selectedLang\<rparr>) selectedLang of
                          (w1, req1) \<Rightarrow> (w1, req1, path)))
               else
                 (case redirLang w (req\<lparr>ctx_UASelectedLang := Some selectedLang\<rparr>) selectedLang of
                    (w1, req1) \<Rightarrow> (w1, req1, path)))
         else (w, req\<lparr>ctx_UASelectedLang := Some selectedLang\<rparr>, path))"


subsection \<open>Dispatch\<close>

text \<open>
  The result of \<^verbatim>\<open>ServeHTTP\<close> is the transport after the deferred \<^verbatim>\<open>Copy\<close>, or a
  panic that leaves \<^verbatim>\<open>ServeHTTP\<close> (with the transport as it is then).
\<close>

datatype outcome = Served ResponseWriter | Crashed ResponseWriter string

fun splitPanic :: "haction list \<Rightarrow> haction list \<times> string option" where
  "splitPanic [] = ([], None)"
| "splitPanic (HPanic v # as) = ([], Some v)"
| "splitPanic (a # as) = (case splitPanic as of (ws, p) \<Rightarrow> (a # ws, p))"

definition applyAll :: "haction list \<Rightarrow> ResponseWriter \<Rightarrow> ResponseWriter" where
  "applyAll as w = foldl (\<lambda>w a. applyAction a w) w as"

text \<open>
  A handler called in the goroutine of \<^verbatim>\<open>ServeHTTP\<close>: a panic is taken by the deferred
  \<^verbatim>\<open>recv\<close> when a panic handler is set, and the deferred \<^verbatim>\<open>Copy\<close> runs in every case.
  \<open>req0\<close> is the request that \<^verbatim>\<open>defer r.recv(w, req)\<close> captured.
\<close>

definition runSync :: "'n Router \<Rightarrow> ResponseWriter \<Rightarrow> Request \<Rightarrow> ResponseWriter
    \<Rightarrow> haction list \<Rightarrow> outcome" where
  "runSync r rw req0 w acts =
     (case runActs acts w of
        (w2, None) \<Rightarrow> Served (Copy w2 rw)
      | (w2, Some v) \<Rightarrow>
          (case PanicHandler r of
             None \<Rightarrow> Crashed (Copy w2 rw) v
           | Some ph \<Rightarrow>
               (case runActs (ph req0 v) w2 of
                  (w3, None) \<Rightarrow> Served (Copy w3 rw)
                | (w3, Some v2) \<Rightarrow> Crashed (Copy w3 rw) v2)))"

text \<open>
  The nested goroutine of a route without parameters. Its calls on the shared writer are
  those of the handler up to a panic, then those of the panic handler when one is set; the
  second component is the panic that nothing recovers.
\<close>

definition goroutineProg :: "'n Router \<Rightarrow> Request \<Rightarrow> haction list
    \<Rightarrow> haction list \<times> string option" where
  "goroutineProg r req acts =
     (case splitPanic acts of
        (ws, None) \<Rightarrow> (ws, None)
      | (ws, Some v) \<Rightarrow>
          (case PanicHandler r of
             None \<Rightarrow> (ws, Some v)
           | Some ph \<Rightarrow> (case splitPanic (ph req v) of (ws2, p) \<Rightarrow> (ws @ ws2, p))))"

text \<open>
  What the environment decides in the \<^verbatim>\<open>select\<close>: whether the context's \<^verbatim>\<open>Done\<close>
  channel is taken, after how many calls of the goroutine on the writer, and with which
  \<^verbatim>\<open>ctx.Err()\<close>; and, since the goroutine is not stopped and holds the same writer, how
  many further calls it makes between \<^verbatim>\<open>w.Reset()\<close> and \<^verbatim>\<open>http.Error\<close>, and between
  \<^verbatim>\<open>http.Error\<close> and the deferred \<^verbatim>\<open>Copy\<close>. Calls on the writer are taken as
  atomic. \<open>fire = None\<close>: the completion signal is taken.
\<close>

datatype ctxErr = Canceled | DeadlineExceeded | OtherErr

record Sched =
  fire :: "(nat \<times> ctxErr) option"
  afterReset :: nat
  afterError :: nat

definition ctxError :: "ctxErr \<Rightarrow> ResponseWriter \<Rightarrow> ResponseWriter" where
  "ctxError err w =
     (case err of
        Canceled \<Rightarrow> http_Error ''Context canceled'' 500 w
      | DeadlineExceeded \<Rightarrow> http_Error (http_StatusText 408) 408 w
      | OtherErr \<Rightarrow> http_Error (http_StatusText 500) 500 w)"

definition serveAsync :: "Sched \<Rightarrow> 'n Router \<Rightarrow> ResponseWriter \<Rightarrow> Request \<Rightarrow> ResponseWriter
    \<Rightarrow> haction list \<Rightarrow> outcome" where
  "serveAsync sch r rw req w acts =
     (case goroutineProg r req acts of
        (ws, p) \<Rightarrow>
          (case fire sch of
             None \<Rightarrow>
               (case p of
                  None \<Rightarrow> Served (Copy (applyAll ws w) rw)
                | Some v \<Rightarrow> Crashed rw v)
           | Some (k0, err) \<Rightarrow>
               (let k1 = afterReset sch; k2 = afterError sch
                in case (if length ws < k0 + k1 + k2 then p else None) of
                     Some v \<Rightarrow> Crashed rw v
                   | None \<Rightarrow>
                       (let w2 = applyAll (take k0 ws) w;
                            w3 = Reset w2;
                            w4 = applyAll (take k1 (drop k0 ws)) w3;
                            w5 = ctxError err w4;
                            w6 = applyAll (take k2 (drop (k0 + k1) ws)) w5
                        in Served (Copy w6 rw)))))"

text \<open>Lines 585 to 614: automatic OPTIONS, 405, 404.\<close>

definition serveNotFound :: "'n Router \<Rightarrow> ResponseWriter \<Rightarrow> Request \<Rightarrow> ResponseWriter \<Rightarrow> outcome" where
  "serveNotFound r rw req w =
     (case NotFound r of
        Some h \<Rightarrow> runSync r rw req w (h req)
      | None \<Rightarrow> Served (Copy (http_NotFound w) rw))"

definition serveFallback :: "'n TrieOps \<Rightarrow> 'n Router \<Rightarrow> ResponseWriter \<Rightarrow> Request
    \<Rightarrow> ResponseWriter \<Rightarrow> string \<Rightarrow> outcome" where
  "serveFallback T r rw req w path =
     (if Method req = ''OPTIONS'' \<and> HandleOPTIONS r then
        (let allow = allowed T r path ''OPTIONS''
         in if allow \<noteq> [] then
              (let w1 = Header_Set ''Allow'' allow w
               in case GlobalOPTIONS r of
                    Some h \<Rightarrow> runSync r rw req w1 (h req)
                  | None \<Rightarrow> Served (Copy w1 rw))
            else serveNotFound r rw req w)
      else if HandleMethodNotAllowed r then
        (let allow = allowed T r path (Method req)
         in if allow \<noteq> [] then
              (let w1 = Header_Set ''Allow'' allow w
               in case MethodNotAllowed r of
                    Some h \<Rightarrow> runSync r rw req w1 (h req)
                  | None \<Rightarrow> Served (Copy (http_Error (http_StatusText 405) 405 w1) rw))
            else serveNotFound r rw req w)
      else serveNotFound r rw req w)"

text \<open>Lines 487 to 551: a handle was found.\<close>

definition serveFound :: "GoEnv \<Rightarrow> Sched \<Rightarrow> 'n Router \<Rightarrow> ResponseWriter \<Rightarrow> Request
    \<Rightarrow> ResponseWriter \<Rightarrow> HandlerFunc \<Rightarrow> Params option \<Rightarrow> bool \<Rightarrow> outcome" where
  "serveFound env sch r rw req w handle ps i18n =
     (case (if DefaultLang r \<noteq> [] \<and> i18n then selectLang env r w req
            else (w, req, URL_Path req)) of
        (w1, req1, path1) \<Rightarrow>
          (case ps of
             Some p \<Rightarrow> runSync r rw req w1 (handle (req1\<lparr>ctx_Params := Some p\<rparr>))
           | None \<Rightarrow>
               (let req2 = req1\<lparr>ctx_Params := None\<rparr>
                in serveAsync sch r rw req2 w1 (handle req2))))"

definition ServeHTTP :: "'n TrieOps \<Rightarrow> GoEnv \<Rightarrow> Sched \<Rightarrow> 'n Router \<Rightarrow> ResponseWriter \<Rightarrow> Request
    \<Rightarrow> outcome" where
  "ServeHTTP T env sch r rw req =
     (let w = NewResponseWriter;
          path = URL_Path req;
          rawpath = path
      in case map_of (trees r) (Method req) of
           None \<Rightarrow> serveFallback T r rw req w path
         | Some root \<Rightarrow>
             (case getValue T root path True of
                (Some handle, ps, i18n, tsr) \<Rightarrow> serveFound env sch r rw req w handle ps i18n
              | (None, ps, i18n, tsr) \<Rightarrow>
                  (if Method req \<noteq> ''CONNECT'' \<and> path \<noteq> ''/'' then
                     (let c = (if Method req \<noteq> ''GET'' then 308 else 301)
                      in if tsr \<and> RedirectTrailingSlash r then
                           (let target = (if length rawpath > 1 \<and> last rawpath = CHR ''/''
                                          then butlast rawpath else rawpath @ ''/'')
                            in Served (Copy (http_Redirect (Method req) target c w) rw))
                         else if RedirectFixedPath r then
                           (case findCaseInsensitivePath T root (CleanPath T path)
                                   (RedirectTrailingSlash r) of
                              (fixedPath, found) \<Rightarrow>
                                (if found
                                 then Served (Copy (http_Redirect (Method req) fixedPath c w) rw)
                                 else serveFallback T r rw req w path))
                         else serveFallback T r rw req w path)
                   else serveFallback T r rw req w path)))"


text \<open>
  The requests for which \<^verbatim>\<open>ServeHTTP\<close> reaches line 585: the method has no tree, or
  its tree has no handle for the path and neither redirect of lines 552 to 582 is issued.
\<close>

definition fallsThrough :: "'n TrieOps \<Rightarrow> 'n Router \<Rightarrow> Request \<Rightarrow> bool" where
  "fallsThrough T r req =
     (case map_of (trees r) (Method req) of
        None \<Rightarrow> True
      | Some root \<Rightarrow>
          (case getValue T root (URL_Path req) True of
             (Some handle, ps, i18n, tsr) \<Rightarrow> False
           | (None, ps, i18n, tsr) \<Rightarrow>
               (if Method req \<noteq> ''CONNECT'' \<and> URL_Path req \<noteq> ''/'' then
                  \<not> (tsr \<and> RedirectTrailingSlash r)
                  \<and> \<not> (RedirectFixedPath r
                        \<and> snd (findCaseInsensitivePath T root (CleanPath T (URL_Path req))
                                 (RedirectTrailingSlash r)))
                else True)))"

section \<open>The prefix tree\<close>

text \<open>
  Modelled from the spec: the prefix tree of sections 3 and 4.1 (\<^verbatim>\<open>node\<close>,
  \<^verbatim>\<open>addRoute\<close>, \<^verbatim>\<open>getValue\<close>, \<^verbatim>\<open>countParams\<close>), whose file is not among the
  sources. A node owns a segment of the pattern; a parameter node owns \<^verbatim>\<open>:name\<close>, a
  catch-all node owns \<^verbatim>\<open>/*name\<close> and is a leaf. The priority of a node is the number
  of handlers at or below it, and children are kept by descending priority.
\<close>

datatype nodeKind = static | param | catchAll

datatype node =
  Node (segment: string) (kind: nodeKind) (children: "node list")
       (handler: "HandlerFunc option") (i18nFlag: bool) (wildcardChild: bool) (priority: nat)

definition newNode :: node where
  "newNode = Node [] static [] None False False 0"

text \<open>Modelled from the spec: \<^verbatim>\<open>countParams\<close>, the number of wildcard segments of a
  pattern.\<close>

definition node_countParams :: "string \<Rightarrow> nat" where
  "node_countParams pattern = length (filter (\<lambda>c. c = CHR '':'' \<or> c = CHR ''*'') pattern)"

datatype ptoken = PStatic string | PParam string | PCatchAll string

text \<open>
  Modelled from the spec: the segments of a pattern. A wildcard has a name and is alone in
  its path segment; a catch-all follows a slash and ends the pattern.
\<close>

function scanPattern :: "string \<Rightarrow> string \<Rightarrow> string + ptoken list" where
  "scanPattern acc [] = Inr (if acc = [] then [] else [PStatic acc])"
| "scanPattern acc (c # cs) =
     (if c = CHR '':'' then
        (let name = takeWhile (\<lambda>x. x \<noteq> CHR ''/'') cs;
             rest = dropWhile (\<lambda>x. x \<noteq> CHR ''/'') cs
         in if name = [] then Inl ''wildcards must be named with a non-empty name''
            else if CHR '':'' \<in> set name \<or> CHR ''*'' \<in> set name
              then Inl ''only one wildcard per path segment is allowed''
            else (case scanPattern [] rest of
                    Inl e \<Rightarrow> Inl e
                  | Inr ts \<Rightarrow> Inr ((if acc = [] then [] else [PStatic acc]) @ PParam name # ts)))
      else if c = CHR ''*'' then
        (if cs = [] then Inl ''wildcards must be named with a non-empty name''
         else if CHR ''/'' \<in> set cs
           then Inl ''catch-all routes are only allowed at the end of the path''
         else if CHR '':'' \<in> set cs \<or> CHR ''*'' \<in> set cs
           then Inl ''only one wildcard per path segment is allowed''
         else if acc = [] \<or> last acc \<noteq> CHR ''/'' then Inl ''no / before catch-all''
         else Inr ((if butlast acc = [] then [] else [PStatic (butlast acc)]) @ [PCatchAll cs]))
      else scanPattern (acc @ [c]) cs)"
  by pat_completeness auto
termination
  by (relation "measure (\<lambda>(acc, p). length p)") (auto simp: length_dropWhile_le less_Suc_eq_le)

text \<open>Modelled from the spec: the chain of nodes of a pattern that shares no prefix with
  the tree; only its last node has the handler.\<close>

fun buildChain :: "ptoken list \<Rightarrow> bool \<Rightarrow> HandlerFunc \<Rightarrow> node" where
  "buildChain [] i18n h = Node [] static [] (Some h) i18n False 1"
| "buildChain [PStatic s] i18n h = Node s static [] (Some h) i18n False 1"
| "buildChain [PParam name] i18n h = Node (CHR '':'' # name) param [] (Some h) i18n False 1"
| "buildChain (PCatchAll name # ts) i18n h =
     Node (''/*'' @ name) catchAll [] (Some h) i18n False 1"
| "buildChain (PStatic s # t # ts) i18n h =
     (let c = buildChain (t # ts) i18n h
      in Node s static [c] None False (kind c \<noteq> static) 1)"
| "buildChain (PParam name # t # ts) i18n h =
     (let c = buildChain (t # ts) i18n h
      in Node (CHR '':'' # name) param [c] None False (kind c \<noteq> static) 1)"

definition insertChild :: "string \<Rightarrow> bool \<Rightarrow> HandlerFunc \<Rightarrow> string + node" where
  "insertChild pattern i18n h =
     (case scanPattern [] pattern of
        Inl e \<Rightarrow> Inl e
      | Inr ts \<Rightarrow> Inr (buildChain ts i18n h))"

fun lcp :: "string \<Rightarrow> string \<Rightarrow> nat" where
  "lcp (x # xs) (y # ys) = (if x = y then Suc (lcp xs ys) else 0)"
| "lcp xs ys = 0"

text \<open>Modelled from the spec: after a child's priority grew, the child moves in front of
  the siblings of lower priority.\<close>

fun reposition :: "node list \<Rightarrow> node list" where
  "reposition [] = []"
| "reposition [x] = [x]"
| "reposition (x # y # ys) =
     (case reposition (y # ys) of
        [] \<Rightarrow> [x]
      | z # zs \<Rightarrow> (if priority x < priority z then z # x # zs else x # z # zs))"

text \<open>
  Modelled from the spec: \<^verbatim>\<open>addRoute\<close>. A static node is split at the longest prefix it
  shares with the pattern; the rest of the pattern goes to the child that starts with the
  same byte, or to the wildcard child when it is the same wildcard, or becomes a new chain.
  The failures are the conflicts the spec lists; \<open>Inl\<close> carries the message of the panic.
\<close>

fun addRouteNode :: "node \<Rightarrow> string \<Rightarrow> bool \<Rightarrow> HandlerFunc \<Rightarrow> string + node"
  and addRouteKids :: "node list \<Rightarrow> string \<Rightarrow> bool \<Rightarrow> HandlerFunc \<Rightarrow> (string + node list) option"
where
  "addRouteKids [] rest i18n h = None"
| "addRouteKids (c # cs) rest i18n h =
     (if kind c = static \<and> segment c \<noteq> [] \<and> rest \<noteq> [] \<and> hd (segment c) = hd rest then
        Some (case addRouteNode c rest i18n h of
                Inl e \<Rightarrow> Inl e
              | Inr c2 \<Rightarrow> Inr (c2 # cs))
      else (case addRouteKids cs rest i18n h of
              None \<Rightarrow> None
            | Some (Inl e) \<Rightarrow> Some (Inl e)
            | Some (Inr cs2) \<Rightarrow> Some (Inr (c # cs2))))"
| "addRouteNode (Node seg k cs hd0 i0 w p) path i18n h =
     (case k of
        catchAll \<Rightarrow> Inl ''conflicts with existing catch-all''
      | param \<Rightarrow>
          (if \<not> (take (length seg) path = seg
                  \<and> (length path = length seg \<or> path ! length seg = CHR ''/''))
           then Inl ''conflicts with existing wildcard''
           else
             (let rest = drop (length seg) path
              in if rest = [] then
                   (if hd0 \<noteq> None then Inl ''a handle is already registered for path''
                    else Inr (Node seg k cs (Some h) i18n w (p + 1)))
                 else
                   (case cs of
                      [] \<Rightarrow>
                        (case insertChild rest i18n h of
                           Inl e \<Rightarrow> Inl e
                         | Inr c \<Rightarrow> Inr (Node seg k [c] hd0 i0 (kind c \<noteq> static) (p + 1)))
                    | c # cs2 \<Rightarrow>
                        (case addRouteNode c rest i18n h of
                           Inl e \<Rightarrow> Inl e
                         | Inr c2 \<Rightarrow> Inr (Node seg k (c2 # cs2) hd0 i0 w (p + 1))))))
      | static \<Rightarrow>
          (let l = lcp seg path
           in if l < length seg then
                (let child = Node (drop l seg) static cs hd0 i0 w p
                 in if l = length path
                    then Inr (Node (take l seg) static [child] (Some h) i18n False (p + 1))
                    else
                      (case insertChild (drop l path) i18n h of
                         Inl e \<Rightarrow> Inl e
                       | Inr c \<Rightarrow>
                           (if kind c \<noteq> static
                            then Inl ''wildcard conflicts with existing children''
                            else Inr (Node (take l seg) static [child, c] None False False (p + 1)))))
              else if l = length path then
                (if hd0 \<noteq> None then Inl ''a handle is already registered for path''
                 else Inr (Node seg k cs (Some h) i18n w (p + 1)))
              else
                (let rest = drop l path
                 in if w then
                      (case cs of
                         [] \<Rightarrow> Inl ''wildcard child missing''
                       | c # cs2 \<Rightarrow>
                           (case addRouteNode c rest i18n h of
                              Inl e \<Rightarrow> Inl e
                            | Inr c2 \<Rightarrow> Inr (Node seg k (c2 # cs2) hd0 i0 w (p + 1))))
                    else
                      (case addRouteKids cs rest i18n h of
                         Some (Inl e) \<Rightarrow> Inl e
                       | Some (Inr cs2) \<Rightarrow> Inr (Node seg k (reposition cs2) hd0 i0 w (p + 1))
                       | None \<Rightarrow>
                           (case insertChild rest i18n h of
                              Inl e \<Rightarrow> Inl e
                            | Inr c \<Rightarrow>
                                (if kind c \<noteq> static then
                                   (if cs = [] then Inr (Node seg k [c] hd0 i0 True (p + 1))
                                    else Inl ''wildcard conflicts with existing children'')
                                 else Inr (Node seg k (cs @ [c]) hd0 i0 w (p + 1))))))))"

definition node_addRoute :: "node \<Rightarrow> string \<Rightarrow> bool \<Rightarrow> HandlerFunc \<Rightarrow> string + node" where
  "node_addRoute n pattern i18n h =
     (if length pattern = 0 \<or> hd pattern \<noteq> CHR ''/'' then Inl ''path must begin with /''
      else if segment n = [] \<and> children n = [] \<and> handler n = None
        then insertChild pattern i18n h
      else addRouteNode n pattern i18n h)"


text \<open>
  Modelled from the spec: \<^verbatim>\<open>getValue\<close>. A static node consumes its segment and hands
  the rest to the static child that starts with the next byte, else to the parameter child,
  which consumes up to the next slash, else to the catch-all child, which consumes the rest.
  \<open>walk\<close> gives the handler, the parameters in the order they were met, and the i18n flag
  of the route.
\<close>

fun walk :: "node \<Rightarrow> string \<Rightarrow> Params \<Rightarrow> HandlerFunc option \<times> Params \<times> bool"
  and walkKids :: "node list \<Rightarrow> string \<Rightarrow> Params \<Rightarrow> (HandlerFunc option \<times> Params \<times> bool) option"
where
  "walkKids [] rest ps = None"
| "walkKids (c # cs) rest ps =
     (if (case kind c of
            static \<Rightarrow> segment c \<noteq> [] \<and> rest \<noteq> [] \<and> hd (segment c) = hd rest
          | param \<Rightarrow> True
          | catchAll \<Rightarrow> rest \<noteq> [] \<and> hd rest = CHR ''/'')
      then Some (walk c rest ps)
      else walkKids cs rest ps)"
| "walk (Node seg k cs hd0 i0 w p) path ps =
     (case k of
        static \<Rightarrow>
          (if path = seg then (hd0, ps, hd0 \<noteq> None \<and> i0)
           else if length seg < length path \<and> take (length seg) path = seg then
             (case walkKids cs (drop (length seg) path) ps of
                Some res \<Rightarrow> res
              | None \<Rightarrow> (None, ps, False))
           else (None, ps, False))
      | param \<Rightarrow>
          (let v = takeWhile (\<lambda>x. x \<noteq> CHR ''/'') path;
               rest = dropWhile (\<lambda>x. x \<noteq> CHR ''/'') path;
               ps2 = ps @ [\<lparr>Key = tl seg, Value = v\<rparr>]
           in if rest = [] then (hd0, ps2, hd0 \<noteq> None \<and> i0)
              else
                (case walkKids cs rest ps2 of
                   Some res \<Rightarrow> res
                 | None \<Rightarrow> (None, ps2, False)))
      | catchAll \<Rightarrow> (hd0, ps @ [\<lparr>Key = drop 2 seg, Value = path\<rparr>], hd0 \<noteq> None \<and> i0))"

definition toggleSlash :: "string \<Rightarrow> string" where
  "toggleSlash path =
     (if path \<noteq> [] \<and> last path = CHR ''/'' then butlast path else path @ ''/'')"

text \<open>
  Modelled from the spec: the result of \<^verbatim>\<open>getValue\<close>. The trailing-slash
  recommendation: no handler at the path, but one after the trailing slash is toggled.
  Without a pool function no parameter is kept, and a route without wildcards has the nil
  parameters. The spec gives the parameters of a wildcard route as the wildcard values
  alone, while the repository's tests (\<^verbatim>\<open>TestRouter\<close>, \<^verbatim>\<open>TestRouterLookup\<close>)
  expect a leading \<^verbatim>\<open>i18n\<close> entry there, which the spec does not describe. The
  properties below use this tree on routes without wildcards only, where the two agree.
\<close>

definition node_getValue :: "node \<Rightarrow> string \<Rightarrow> bool
    \<Rightarrow> HandlerFunc option \<times> Params option \<times> bool \<times> bool" where
  "node_getValue n path collect =
     (case walk n path [] of
        (h, ps, i18n) \<Rightarrow>
          (h, (if collect \<and> ps \<noteq> [] then Some ps else None), i18n,
           h = None \<and> fst (walk n (toggleSlash path) []) \<noteq> None))"

text \<open>The tree operations of the router, with the modelled tree; the case-insensitive
  search and \<^verbatim>\<open>CleanPath\<close> stay parameters.\<close>

definition specTrie :: "(node \<Rightarrow> string \<Rightarrow> bool \<Rightarrow> string \<times> bool) \<Rightarrow> (string \<Rightarrow> string)
    \<Rightarrow> node TrieOps" where
  "specTrie fcip cp =
     \<lparr>emptyNode = newNode, addRoute = node_addRoute, getValue = node_getValue,
      findCaseInsensitivePath = fcip, countParams = node_countParams, CleanPath = cp\<rparr>"


section \<open>Example configurations\<close>

text \<open>
  The concrete routers, requests and environments at which the properties below are
  evaluated. The tree is the modelled one; none of the examples reaches the
  case-insensitive search or \<^verbatim>\<open>CleanPath\<close>, which are given trivial values here.
\<close>

definition exampleTrie :: "node TrieOps" where
  "exampleTrie = specTrie (\<lambda>n p f. ([], False)) (\<lambda>p. p)"

definition registered :: "fault + node Router \<Rightarrow> node Router" where
  "registered res = (case res of Inr r \<Rightarrow> r | Inl e \<Rightarrow> New)"

text \<open>
  An environment for the examples: the qualities are the decimal fractions that are binary
  fractions, on which \<^verbatim>\<open>int32(f * 1000.0)\<close> is exact; \<^verbatim>\<open>sort.Sort\<close> is the insertion
  sort that Go runs on short slices; \<^verbatim>\<open>range\<close> visits a map in the order of insertion.
\<close>

definition exampleEnv :: GoEnv where
  "exampleEnv =
     \<lparr>parseQ = (\<lambda>s. if s = ''1'' \<or> s = ''1.0'' then Inr 1000
                    else if s = ''0.75'' then Inr 750
                    else if s = ''0.5'' then Inr 500
                    else if s = ''0.25'' then Inr 250
                    else if s = ''0'' then Inr 0
                    else Inl ''strconv.ParseFloat: invalid syntax''),
      sortSort = insertionSort (\<lambda>a b. \<not> less a b),
      mapRange = (\<lambda>tps. tps)\<rparr>"

definition noCancel :: Sched where
  "noCancel = \<lparr>fire = None, afterReset = 0, afterError = 0\<rparr>"

definition request :: "string \<Rightarrow> string \<Rightarrow> Request" where
  "request m p = \<lparr>Method = m, URL_Path = p, ReqHeader = Map.empty,
                  ctx_Params = None, ctx_UASelectedLang = None\<rparr>"

definition hHello :: HandlerFunc where
  "hHello = (\<lambda>req. [HWriteHeader 200, HWrite ''hello''])"

definition hTwoWrites :: HandlerFunc where
  "hTwoWrites = (\<lambda>req. [HWrite ''partial-'', HWrite ''rest''])"

definition langRouter :: "node Router" where
  "langRouter =
     registered (Handle exampleTrie
       (New\<lparr>DefaultLang := ''en'', SupportedLangs := [''pt'', ''en'']\<rparr>)
       ''GET'' ''/lang'' True (Some hHello))"

definition langPostRouter :: "node Router" where
  "langPostRouter =
     registered (Handle exampleTrie
       (New\<lparr>DefaultLang := ''en'', SupportedLangs := [''pt'', ''en'']\<rparr>)
       ''POST'' ''/lang'' True (Some hHello))"

definition fooRouter :: "node Router" where
  "fooRouter =
     registered (Handle exampleTrie
       (New\<lparr>DefaultLang := ''en'', SupportedLangs := [''pt'', ''en'']\<rparr>)
       ''GET'' ''/foo/'' False (Some hHello))"

definition deadlineRouter :: "node Router" where
  "deadlineRouter = registered (Handle exampleTrie New ''GET'' ''/deadline'' False (Some hHello))"

definition slowRouter :: "node Router" where
  "slowRouter = registered (Handle exampleTrie New ''GET'' ''/slow'' False (Some hTwoWrites))"

definition postRouter :: "node Router" where
  "postRouter = registered (Handle exampleTrie New ''POST'' ''/path'' False (Some hHello))"

definition dirRouter :: "node Router" where
  "dirRouter = registered (Handle exampleTrie New ''GET'' ''/dir/'' False (Some hHello))"

definition lateStatus :: Sched where
  "lateStatus = \<lparr>fire = Some (0, DeadlineExceeded), afterReset = 0, afterError = 2\<rparr>"

definition lateBody :: Sched where
  "lateBody = \<lparr>fire = Some (1, Canceled), afterReset = 0, afterError = 1\<rparr>"


section \<open>Properties\<close>

subsection \<open>The sort of the allowed methods\<close>

text \<open>The loops of \<^verbatim>\<open>allowed\<close> keep the elements and, with \<^verbatim>\<open><\<close> on strings, leave
  them in ascending order: the result is the sorted list.\<close>

lemma insertionInner_length [simp]: "length (insertionInner lt j xs) = length xs"
  by (induction j arbitrary: xs) auto

lemma insertionInner_mset: "j < length xs \<Longrightarrow> mset (insertionInner lt j xs) = mset xs"
proof (induction j arbitrary: xs)
  case 0
  then show ?case by simp
next
  case (Suc j)
  have "mset (xs[Suc j := xs ! j, j := xs ! Suc j]) = mset xs"
    using Suc.prems by (simp add: mset_swap)
  then show ?case using Suc by simp
qed

lemma insertionFold_mset:
  "n \<le> length xs \<Longrightarrow> mset (foldl (\<lambda>ys i. insertionInner lt i ys) xs [i..<n]) = mset xs"
proof (induction "n - i" arbitrary: i xs)
  case 0
  then show ?case by simp
next
  case (Suc d)
  then have "i < n" by simp
  then have eq: "[i..<n] = i # [Suc i..<n]" by (simp add: upt_conv_Cons)
  have "mset (foldl (\<lambda>ys i. insertionInner lt i ys) (insertionInner lt i xs) [Suc i..<n])
        = mset (insertionInner lt i xs)"
    using Suc by (intro Suc.hyps(1)) auto
  then show ?case using eq insertionInner_mset [of i xs lt] Suc.prems \<open>i < n\<close> by simp
qed

lemma insertionSort_mset: "mset (insertionSort lt xs) = mset xs"
  by (simp add: insertionSort_def insertionFold_mset)

lemma insertionInner_insRev:
  "insertionInner lt (length pre) (pre @ x # post) = rev (insRev lt x (rev pre)) @ post"
proof (induction pre arbitrary: post rule: rev_induct)
  case Nil
  then show ?case by simp
next
  case (snoc y pre)
  have upd: "(pre @ y # x # post)[Suc (length pre) := y, length pre := x] = pre @ x # y # post"
    by (simp add: list_update_append)
  have nth1: "(pre @ y # x # post) ! Suc (length pre) = x"
    by (simp add: nth_append)
  have nth0: "(pre @ y # x # post) ! length pre = y"
    by (simp add: nth_append)
  show ?case
    using snoc [of "y # post"] upd nth0 nth1 by simp
qed

lemma set_insRev: "set (insRev lt x ys) = insert x (set ys)"
  by (induction ys) auto

lemma sorted_insRev:
  fixes x :: "'a::linorder"
  shows "sorted (rev ys) \<Longrightarrow> sorted (rev (insRev (\<lambda>a b. a < b) x ys))"
  by (induction ys) (auto simp: sorted_append set_insRev)

lemma length_insRev: "length (insRev lt x ys) = Suc (length ys)"
  by (induction ys) auto

lemma insertionInner_sorted_take:
  fixes xs :: "('a::linorder) list"
  assumes "i < length xs" "sorted (take i xs)"
  shows "sorted (take (Suc i) (insertionInner (\<lambda>a b. a < b) i xs))"
proof -
  have xs: "xs = take i xs @ xs ! i # drop (Suc i) xs"
    using assms(1) by (simp add: id_take_nth_drop)
  have len: "length (take i xs) = i" using assms(1) by simp
  have "insertionInner (\<lambda>a b. a < b) i xs
        = rev (insRev (\<lambda>a b. a < b) (xs ! i) (rev (take i xs))) @ drop (Suc i) xs"
    using insertionInner_insRev [of "\<lambda>a b. a < b" "take i xs" "xs ! i" "drop (Suc i) xs"] xs len
    by simp
  moreover have "length (rev (insRev (\<lambda>a b. a < b) (xs ! i) (rev (take i xs)))) = Suc i"
    using len by (simp add: length_insRev)
  ultimately have "take (Suc i) (insertionInner (\<lambda>a b. a < b) i xs)
        = rev (insRev (\<lambda>a b. a < b) (xs ! i) (rev (take i xs)))"
    by simp
  then show ?thesis using sorted_insRev [of "rev (take i xs)" "xs ! i"] assms(2) by simp
qed

lemma insertionFold_sorted:
  fixes xs :: "('a::linorder) list"
  shows "n = length xs \<Longrightarrow> i \<le> n \<Longrightarrow> sorted (take i xs) \<Longrightarrow>
     sorted (foldl (\<lambda>ys i. insertionInner (\<lambda>a b. a < b) i ys) xs [i..<n])"
proof (induction "n - i" arbitrary: i xs)
  case 0
  then show ?case by simp
next
  case (Suc d)
  then have lt: "i < n" by simp
  then have eq: "[i..<n] = i # [Suc i..<n]" by (simp add: upt_conv_Cons)
  have "sorted (foldl (\<lambda>ys i. insertionInner (\<lambda>a b. a < b) i ys)
           (insertionInner (\<lambda>a b. a < b) i xs) [Suc i..<n])"
  proof (rule Suc.hyps(1))
    show "d = n - Suc i" using Suc.hyps(2) by simp
    show "n = length (insertionInner (\<lambda>a b. a < b) i xs)" using Suc.prems by simp
    show "Suc i \<le> n" using lt by simp
    show "sorted (take (Suc i) (insertionInner (\<lambda>a b. a < b) i xs))"
      using insertionInner_sorted_take Suc.prems lt by blast
  qed
  then show ?case using eq by simp
qed

lemma sortAllowed_sort: "sortAllowed xs = sort xs"
proof -
  have s: "sorted (sortAllowed xs)"
  proof (cases xs)
    case Nil
    then show ?thesis by (simp add: sortAllowed_def insertionSort_def)
  next
    case (Cons a as)
    then have "sorted (take 1 xs)" by simp
    then show ?thesis
      unfolding sortAllowed_def insertionSort_def
      using insertionFold_sorted [of "length xs" xs 1] Cons by simp
  qed
  have m: "mset (sortAllowed xs) = mset xs"
    by (simp add: sortAllowed_def insertionSort_mset)
  show ?thesis using properties_for_sort [OF m s] by simp
qed

subsection \<open>Lookup\<close>

text \<open>
  C10. \<^verbatim>\<open>Lookup\<close> is not total: on the empty path, for every method and every router,
  it reads \<^verbatim>\<open>path[len(path)-1]\<close> before any tree is consulted and ends in the index
  fault; on every non-empty path it returns.
\<close>

theorem Lookup_empty_path_faults:
  "Lookup T r method [] = Inl IndexOutOfRange
   \<and> (path \<noteq> [] \<longrightarrow> (\<exists>res. Lookup T r method path = Inr res))"
  by (auto simp add: Lookup_def lookupPath_def Let_def split: option.splits prod.splits)

theorem Lookup_empty_path_faults_witness:
  "Lookup exampleTrie (New :: node Router) ''GET'' [] = Inl IndexOutOfRange
   \<and> ''/nope'' \<noteq> []
   \<and> (\<exists>res. Lookup exampleTrie (New :: node Router) ''GET'' ''/nope'' = Inr res)"
  using Lookup_empty_path_faults [of exampleTrie "New :: node Router" "''GET''" "''/nope''"]
  by simp

text \<open>
  C8. With a default language configured, \<^verbatim>\<open>Lookup\<close> should query the tree with the
  language-free form of the path. On \<^verbatim>\<open>/foo/\<close>, which has no language segment, the
  trailing slash is appended although nothing was stripped: the tree is asked for
  \<^verbatim>\<open>/foo//\<close>, and the handler registered at \<^verbatim>\<open>/foo/\<close> is not found.
\<close>

theorem Lookup_appends_slash_without_language:
  "lookupPath fooRouter ''/foo/'' = Inr ''/foo//''
   \<and> fst (getValue exampleTrie (the (map_of (trees fooRouter) ''GET'')) ''/foo/'' True) \<noteq> None
   \<and> (case Lookup exampleTrie fooRouter ''GET'' ''/foo/'' of
         Inr (h, ps, tsr) \<Rightarrow> h = None \<and> ps = None
       | Inl e \<Rightarrow> False)"
  by code_simp

subsection \<open>Dispatch without a handle\<close>

lemma redirect_cascade_none:
  "\<not> (A \<and> (B \<or> (C \<and> D))) \<Longrightarrow>
   (if A then (if B then x else if C then (if D then y else z) else z) else z) = z"
  by auto

lemma redirect_cascade_some:
  "A \<and> (B \<or> (C \<and> D)) \<Longrightarrow>
   (if A then (if B then x else if C then (if D then y else z) else z) else z)
     = (if B then x else y)"
  by auto

lemma ServeHTTP_no_handle:
  assumes "map_of (trees r) (Method req) = Some root"
      and "getValue T root (URL_Path req) True = (None, ps, i18n, tsr)"
      and "findCaseInsensitivePath T root (CleanPath T (URL_Path req)) (RedirectTrailingSlash r)
             = (fixedPath, found)"
  shows "ServeHTTP T env sch r rw req =
     (if Method req \<noteq> ''CONNECT'' \<and> URL_Path req \<noteq> ''/'' then
        (if tsr \<and> RedirectTrailingSlash r then
           Served (Copy (http_Redirect (Method req)
                     (if length (URL_Path req) > 1 \<and> last (URL_Path req) = CHR ''/''
                      then butlast (URL_Path req) else URL_Path req @ ''/'')
                     (if Method req \<noteq> ''GET'' then 308 else 301) NewResponseWriter) rw)
         else if RedirectFixedPath r then
           (if found
            then Served (Copy (http_Redirect (Method req) fixedPath
                           (if Method req \<noteq> ''GET'' then 308 else 301) NewResponseWriter) rw)
            else serveFallback T r rw req NewResponseWriter (URL_Path req))
         else serveFallback T r rw req NewResponseWriter (URL_Path req))
      else serveFallback T r rw req NewResponseWriter (URL_Path req))"
  by (simp only: ServeHTTP_def Let_def assms option.case prod.case)

lemma ServeHTTP_fallsThrough:
  assumes "fallsThrough T r req"
  shows "ServeHTTP T env sch r rw req = serveFallback T r rw req NewResponseWriter (URL_Path req)"
proof (cases "map_of (trees r) (Method req)")
  case None
  then show ?thesis by (simp add: ServeHTTP_def)
next
  case (Some root)
  obtain h ps i18n tsr where gv: "getValue T root (URL_Path req) True = (h, ps, i18n, tsr)"
    by (cases "getValue T root (URL_Path req) True") auto
  have hn: "h = None"
    using assms Some gv by (cases h) (simp_all add: fallsThrough_def)
  obtain fixedPath found where
    fc: "findCaseInsensitivePath T root (CleanPath T (URL_Path req)) (RedirectTrailingSlash r)
           = (fixedPath, found)"
    by (cases "findCaseInsensitivePath T root (CleanPath T (URL_Path req)) (RedirectTrailingSlash r)")
       auto
  have "\<not> ((Method req \<noteq> ''CONNECT'' \<and> URL_Path req \<noteq> ''/'')
            \<and> ((tsr \<and> RedirectTrailingSlash r) \<or> (RedirectFixedPath r \<and> found)))"
    using assms Some gv hn fc by (auto simp add: fallsThrough_def split: if_splits)
  then show ?thesis
    unfolding ServeHTTP_no_handle [OF Some gv [unfolded hn] fc]
    by (rule redirect_cascade_none)
qed

lemma strings_Join_nonempty:
  "2 \<le> length xs \<Longrightarrow> sep \<noteq> [] \<Longrightarrow> strings_Join xs sep \<noteq> []"
proof -
  assume a: "2 \<le> length xs" and s: "sep \<noteq> []"
  from a obtain x y ys where "xs = x # y # ys"
    by (cases xs; cases "tl xs") auto
  then show ?thesis using s by simp
qed

lemma allowed_concrete:
  assumes "path \<noteq> ''*''"
  shows "allowed T r path reqMethod =
     (let ms = map fst (filter (\<lambda>(method, n).
                  \<not> (method = reqMethod \<or> method = ''OPTIONS'')
                  \<and> fst (getValue T n path False) \<noteq> None) (trees r))
      in if ms = [] then [] else strings_Join (sort (ms @ [''OPTIONS''])) '', '')"
  using assms by (simp add: allowed_def Let_def sortAllowed_sort)

lemma serveFallback_allow:
  assumes "allowed T r path (Method req) = a"
      and "(Method req = ''OPTIONS'' \<and> HandleOPTIONS r) \<or> HandleMethodNotAllowed r"
  shows "serveFallback T r rw req w path =
           (if a = [] then serveNotFound r rw req w
            else if Method req = ''OPTIONS'' \<and> HandleOPTIONS r then
              (case GlobalOPTIONS r of
                 Some h \<Rightarrow> runSync r rw req (Header_Set ''Allow'' a w) (h req)
               | None \<Rightarrow> Served (Copy (Header_Set ''Allow'' a w) rw))
            else
              (case MethodNotAllowed r of
                 Some h \<Rightarrow> runSync r rw req (Header_Set ''Allow'' a w) (h req)
               | None \<Rightarrow> Served (Copy (http_Error (http_StatusText 405) 405
                                         (Header_Set ''Allow'' a w)) rw)))"
proof (cases "Method req = ''OPTIONS'' \<and> HandleOPTIONS r")
  case True
  then have a: "allowed T r path ''OPTIONS'' = a" using assms(1) by simp
  have c: "(Method req = ''OPTIONS'' \<and> HandleOPTIONS r) = True" using True by simp
  show ?thesis by (simp add: serveFallback_def Let_def c a)
next
  case False
  then have h: "HandleMethodNotAllowed r = True" using assms(2) by blast
  have c: "(Method req = ''OPTIONS'' \<and> HandleOPTIONS r) = False" using False by simp
  show ?thesis by (simp add: serveFallback_def Let_def c h assms(1))
qed

lemma Allow_not_found:
  "code (Copy (http_NotFound NewResponseWriter) rw) = 404
   \<and> header (Copy (http_NotFound NewResponseWriter) rw) ''Allow'' = header rw ''Allow''"
  by (simp add: Copy_def http_NotFound_def http_Error_def Header_Set_def Write_def
                WriteHeader_def NewResponseWriter_def Let_def)

lemma Allow_options:
  "header (Copy (Header_Set ''Allow'' a NewResponseWriter) rw) ''Allow''
     = Some ((case header rw ''Allow'' of None \<Rightarrow> [] | Some ws \<Rightarrow> ws) @ [a])
   \<and> code (Copy (Header_Set ''Allow'' a NewResponseWriter) rw) = code rw"
  by (simp add: Copy_def Header_Set_def Write_def WriteHeader_def NewResponseWriter_def Let_def)

lemma Allow_405:
  "header (Copy (http_Error msg 405 (Header_Set ''Allow'' a NewResponseWriter)) rw) ''Allow''
     = Some ((case header rw ''Allow'' of None \<Rightarrow> [] | Some ws \<Rightarrow> ws) @ [a])
   \<and> code (Copy (http_Error msg 405 (Header_Set ''Allow'' a NewResponseWriter)) rw) = 405"
  by (simp add: Copy_def http_Error_def Header_Set_def Write_def WriteHeader_def
                NewResponseWriter_def Let_def)

text \<open>
  C4. For a request that reaches the automatic OPTIONS or the 405 handling on a concrete
  path (not \<^verbatim>\<open>*\<close>): the methods collected are the registered methods, other than the
  request's and OPTIONS, whose tree has a handle for the path. When there is none, no
  \<^verbatim>\<open>Allow\<close> header is set: the not-found handler gets the fresh buffer, and without
  one the response is the 404 with the transport's \<^verbatim>\<open>Allow\<close> header untouched.
  Otherwise the \<^verbatim>\<open>Allow\<close> header of the buffer is the collected methods with OPTIONS,
  sorted ascending and joined by comma and space: the OPTIONS or 405 handler gets that
  buffer, and without one the response carries this value as its \<^verbatim>\<open>Allow\<close> header
  (added to the transport's), with status 405 in the 405 handling.
\<close>

theorem Allow_header:
  assumes "URL_Path req \<noteq> ''*''"
      and "(Method req = ''OPTIONS'' \<and> HandleOPTIONS r) \<or> HandleMethodNotAllowed r"
      and "fallsThrough T r req"
  shows "let ms = map fst (filter (\<lambda>(method, n).
                      \<not> (method = Method req \<or> method = ''OPTIONS'')
                      \<and> fst (getValue T n (URL_Path req) False) \<noteq> None) (trees r));
             allow = strings_Join (sort (ms @ [''OPTIONS''])) '', '';
             w1 = Header_Set ''Allow'' allow NewResponseWriter;
             old = (case header rw ''Allow'' of None \<Rightarrow> [] | Some ws \<Rightarrow> ws);
             res = ServeHTTP T env sch r rw req
         in if ms = [] then
              header NewResponseWriter ''Allow'' = None
              \<and> (case NotFound r of
                    Some h \<Rightarrow> res = runSync r rw req NewResponseWriter (h req)
                  | None \<Rightarrow> (\<exists>d. res = Served d \<and> code d = 404
                                  \<and> header d ''Allow'' = header rw ''Allow''))
            else
              header w1 ''Allow'' = Some [allow]
              \<and> (case (if Method req = ''OPTIONS'' \<and> HandleOPTIONS r
                        then GlobalOPTIONS r else MethodNotAllowed r) of
                    Some h \<Rightarrow> res = runSync r rw req w1 (h req)
                  | None \<Rightarrow> (\<exists>d. res = Served d
                                  \<and> header d ''Allow'' = Some (old @ [allow])
                                  \<and> code d = (if Method req = ''OPTIONS'' \<and> HandleOPTIONS r
                                              then code rw else 405)))"
proof -
  define ms where "ms = map fst (filter (\<lambda>(method, n).
                      \<not> (method = Method req \<or> method = ''OPTIONS'')
                      \<and> fst (getValue T n (URL_Path req) False) \<noteq> None) (trees r))"
  define allow where "allow = strings_Join (sort (ms @ [''OPTIONS''])) '', ''"
  define w1 where "w1 = Header_Set ''Allow'' allow NewResponseWriter"
  define old where "old = (case header rw ''Allow'' of None \<Rightarrow> [] | Some ws \<Rightarrow> ws)"
  define res where "res = ServeHTTP T env sch r rw req"
  have a: "allowed T r (URL_Path req) (Method req) = (if ms = [] then [] else allow)"
    unfolding ms_def allow_def
    using allowed_concrete [OF assms(1), of T r "Method req"] by (simp only: Let_def)
  have n: "ms \<noteq> [] \<Longrightarrow> allow \<noteq> []"
    unfolding allow_def
  proof (rule strings_Join_nonempty)
    assume "ms \<noteq> []"
    then have "1 \<le> length ms" by (cases ms) auto
    then show "2 \<le> length (sort (ms @ [''OPTIONS'']))" by simp
  qed simp
  have f: "res = serveFallback T r rw req NewResponseWriter (URL_Path req)"
    unfolding res_def using assms(3) by (rule ServeHTTP_fallsThrough)
  have g: "if ms = [] then
              header NewResponseWriter ''Allow'' = None
              \<and> (case NotFound r of
                    Some h \<Rightarrow> res = runSync r rw req NewResponseWriter (h req)
                  | None \<Rightarrow> (\<exists>d. res = Served d \<and> code d = 404
                                  \<and> header d ''Allow'' = header rw ''Allow''))
            else
              header w1 ''Allow'' = Some [allow]
              \<and> (case (if Method req = ''OPTIONS'' \<and> HandleOPTIONS r
                        then GlobalOPTIONS r else MethodNotAllowed r) of
                    Some h \<Rightarrow> res = runSync r rw req w1 (h req)
                  | None \<Rightarrow> (\<exists>d. res = Served d
                                  \<and> header d ''Allow'' = Some (old @ [allow])
                                  \<and> code d = (if Method req = ''OPTIONS'' \<and> HandleOPTIONS r
                                              then code rw else 405)))"
  proof (cases "ms = []")
    case True
    then have "allowed T r (URL_Path req) (Method req) = []" using a by simp
    from serveFallback_allow [OF this assms(2)]
    have s: "res = serveNotFound r rw req NewResponseWriter" using f by simp
    show ?thesis
      using True s Allow_not_found [of rw]
      by (cases "NotFound r") (simp_all add: serveNotFound_def NewResponseWriter_def)
  next
    case False
    then have "allowed T r (URL_Path req) (Method req) = allow" using a by simp
    from serveFallback_allow [OF this assms(2), of rw NewResponseWriter]
    have s: "res = (if Method req = ''OPTIONS'' \<and> HandleOPTIONS r then
              (case GlobalOPTIONS r of
                 Some h \<Rightarrow> runSync r rw req w1 (h req)
               | None \<Rightarrow> Served (Copy w1 rw))
            else
              (case MethodNotAllowed r of
                 Some h \<Rightarrow> runSync r rw req w1 (h req)
               | None \<Rightarrow> Served (Copy (http_Error (http_StatusText 405) 405 w1) rw)))"
      unfolding w1_def using False n f by simp
    have h1: "header w1 ''Allow'' = Some [allow]" by (simp add: w1_def Header_Set_def)
    show ?thesis
    proof (cases "Method req = ''OPTIONS'' \<and> HandleOPTIONS r")
      case True
      then have c: "(Method req = ''OPTIONS'' \<and> HandleOPTIONS r) = True" by simp
      show ?thesis
        using False h1 s Allow_options [of allow rw]
        unfolding c w1_def old_def
        by (cases "GlobalOPTIONS r") simp_all
    next
      case False2: False
      then have c: "(Method req = ''OPTIONS'' \<and> HandleOPTIONS r) = False" by simp
      show ?thesis
        using False h1 s Allow_405 [of "http_StatusText 405" allow rw]
        unfolding c w1_def old_def
        by (cases "MethodNotAllowed r") simp_all
    qed
  qed
  show ?thesis
    unfolding Let_def ms_def [symmetric] allow_def [symmetric] w1_def [symmetric]
      old_def [symmetric] res_def [symmetric]
    by (rule g)
qed

theorem Allow_header_witness:
  "URL_Path (request ''GET'' ''/path'') \<noteq> ''*''
   \<and> HandleMethodNotAllowed postRouter
   \<and> fallsThrough exampleTrie postRouter (request ''GET'' ''/path'')
   \<and> (\<exists>d. ServeHTTP exampleTrie exampleEnv noCancel postRouter NewResponseWriter
              (request ''GET'' ''/path'') = Served d
          \<and> header d ''Allow'' = Some [''OPTIONS, POST''] \<and> code d = 405)
   \<and> URL_Path (request ''GET'' ''/nope'') \<noteq> ''*''
   \<and> fallsThrough exampleTrie postRouter (request ''GET'' ''/nope'')
   \<and> (\<exists>d. ServeHTTP exampleTrie exampleEnv noCancel postRouter NewResponseWriter
              (request ''GET'' ''/nope'') = Served d
          \<and> code d = 404 \<and> header d ''Allow'' = None)"
proof -
  have p1: "URL_Path (request ''GET'' ''/path'') \<noteq> ''*''" by code_simp
  have p2: "HandleMethodNotAllowed postRouter" by code_simp
  have p3: "fallsThrough exampleTrie postRouter (request ''GET'' ''/path'')" by code_simp
  have q1: "URL_Path (request ''GET'' ''/nope'') \<noteq> ''*''" by code_simp
  have q3: "fallsThrough exampleTrie postRouter (request ''GET'' ''/nope'')" by code_simp
  have ms: "map fst (filter (\<lambda>(method, n).
                      \<not> (method = Method (request ''GET'' ''/path'') \<or> method = ''OPTIONS'')
                      \<and> fst (getValue exampleTrie n (URL_Path (request ''GET'' ''/path'')) False) \<noteq> None)
                 (trees postRouter)) = [''POST'']"
    by code_simp
  have ms2: "map fst (filter (\<lambda>(method, n).
                      \<not> (method = Method (request ''GET'' ''/nope'') \<or> method = ''OPTIONS'')
                      \<and> fst (getValue exampleTrie n (URL_Path (request ''GET'' ''/nope'')) False) \<noteq> None)
                 (trees postRouter)) = []"
    by code_simp
  have srt: "sort [''POST'', ''OPTIONS''] = [''OPTIONS'', ''POST'']" by code_simp
  have m: "Method (request ''GET'' ''/path'') \<noteq> ''OPTIONS''" by code_simp
  have mna: "MethodNotAllowed postRouter = None" by code_simp
  have nf: "NotFound postRouter = None" by code_simp
  have e: "header NewResponseWriter ''Allow'' = None" by (simp add: NewResponseWriter_def)
  have a: "\<exists>d. ServeHTTP exampleTrie exampleEnv noCancel postRouter NewResponseWriter
              (request ''GET'' ''/path'') = Served d
          \<and> header d ''Allow'' = Some [''OPTIONS, POST''] \<and> code d = 405"
    using Allow_header [OF p1 disjI2 [OF p2] p3, where env = exampleEnv and sch = noCancel and rw = NewResponseWriter]
    unfolding Let_def ms
    by (simp add: srt m mna e)
  have b: "\<exists>d. ServeHTTP exampleTrie exampleEnv noCancel postRouter NewResponseWriter
              (request ''GET'' ''/nope'') = Served d
          \<and> code d = 404 \<and> header d ''Allow'' = None"
    using Allow_header [OF q1 disjI2 [OF p2] q3, where env = exampleEnv and sch = noCancel and rw = NewResponseWriter]
    unfolding Let_def ms2
    by (simp add: nf e)
  show ?thesis using p1 p2 p3 q1 q3 a b by blast
qed

subsection \<open>Redirect statuses\<close>

lemma code_Copy: "code w \<noteq> 0 \<Longrightarrow> code (Copy w rw) = code w"
  by (simp add: Copy_def Let_def Write_def WriteHeader_def)

lemma code_http_Redirect: "code (http_Redirect m url c w) = c"
  by (simp add: http_Redirect_def Let_def Write_def WriteHeader_def Header_Set_def)

text \<open>
  When the tree has no handle for the path and the trailing-slash or the fixed-path
  redirect is issued, the committed status is 301 for GET and 308 for every other method.
\<close>

lemma fix_redirect_status:
  assumes "map_of (trees r) (Method req) = Some root"
      and "getValue T root (URL_Path req) True = (None, ps, i18n, tsr)"
      and "Method req \<noteq> ''CONNECT''" and "URL_Path req \<noteq> ''/''"
      and "(tsr \<and> RedirectTrailingSlash r)
           \<or> (RedirectFixedPath r
               \<and> snd (findCaseInsensitivePath T root (CleanPath T (URL_Path req))
                        (RedirectTrailingSlash r)))"
  shows "\<exists>d. ServeHTTP T env sch r rw req = Served d
              \<and> code d = (if Method req = ''GET'' then 301 else 308)"
proof -
  obtain fixedPath found where
    fc: "findCaseInsensitivePath T root (CleanPath T (URL_Path req)) (RedirectTrailingSlash r)
           = (fixedPath, found)"
    by (cases "findCaseInsensitivePath T root (CleanPath T (URL_Path req)) (RedirectTrailingSlash r)")
       auto
  have c: "(Method req \<noteq> ''CONNECT'' \<and> URL_Path req \<noteq> ''/'')
            \<and> ((tsr \<and> RedirectTrailingSlash r) \<or> (RedirectFixedPath r \<and> found))"
    using assms(3,4,5) fc by simp
  let ?c = "if Method req \<noteq> ''GET'' then 308 else (301::int)"
  let ?x = "Served (Copy (http_Redirect (Method req)
                     (if length (URL_Path req) > 1 \<and> last (URL_Path req) = CHR ''/''
                      then butlast (URL_Path req) else URL_Path req @ ''/'')
                     ?c NewResponseWriter) rw)"
  let ?y = "Served (Copy (http_Redirect (Method req) fixedPath ?c NewResponseWriter) rw)"
  have s: "ServeHTTP T env sch r rw req = (if tsr \<and> RedirectTrailingSlash r then ?x else ?y)"
    unfolding ServeHTTP_no_handle [OF assms(1) assms(2) fc]
    using c by (rule redirect_cascade_some)
  have nz: "?c \<noteq> 0" by simp
  have "code (Copy (http_Redirect (Method req) u ?c NewResponseWriter) rw) = ?c" for u
    using code_Copy [of "http_Redirect (Method req) u ?c NewResponseWriter" rw] nz
    unfolding code_http_Redirect by blast
  then show ?thesis
    unfolding s by (cases "tsr \<and> RedirectTrailingSlash r") auto
qed

text \<open>
  C5. A language redirect should have status 301 for GET and 307 for every other method.
  For the i18n route \<^verbatim>\<open>/lang\<close> registered for POST and requested without a language
  prefix, \<^verbatim>\<open>redirLang\<close> writes the status 307 to the buffer; \<^verbatim>\<open>ServeHTTP\<close> then
  runs the handler on the same buffer, and the committed response has the redirect's
  \<^verbatim>\<open>Location\<close> with the handler's status 200.
\<close>

theorem language_redirect_status_overwritten:
  "code (fst (redirLang NewResponseWriter (request ''POST'' ''/lang'') ''en'')) = 307
   \<and> (case ServeHTTP exampleTrie exampleEnv noCancel langPostRouter NewResponseWriter
             (request ''POST'' ''/lang'') of
        Served d \<Rightarrow> header d ''Location'' = Some [''/en/lang''] \<and> code d = 200
                      \<and> buffer d = ''hello''
      | Crashed d v \<Rightarrow> False)"
  by code_simp

subsection \<open>Dispatch after a language redirect\<close>

text \<open>
  C1. When language resolution issues the redirect, dispatch should stop. For the i18n
  route \<^verbatim>\<open>/lang\<close> requested without a language prefix, \<^verbatim>\<open>selectLang\<close> writes the
  redirect to \<^verbatim>\<open>/en/lang\<close> and \<^verbatim>\<open>ServeHTTP\<close> goes on to run the handler: the committed
  response has the handler's status 200 and the handler's body after the redirect's body.
\<close>

theorem handler_runs_after_language_redirect:
  "case ServeHTTP exampleTrie exampleEnv noCancel langRouter NewResponseWriter
          (request ''GET'' ''/lang'') of
     Served d \<Rightarrow>
       header d ''Location'' = Some [''/en/lang'']
       \<and> code d = 200
       \<and> buffer d = buffer (fst (redirLang NewResponseWriter (request ''GET'' ''/lang'') ''en''))
                     @ ''hello''
   | Crashed d v \<Rightarrow> False"
  by code_simp

subsection \<open>Cancellation\<close>

text \<open>
  C2. After the deadline signal the committed response should be the 408 response. When
  the abandoned handler, which still holds the writer, calls \<^verbatim>\<open>WriteHeader(200)\<close> and
  \<^verbatim>\<open>Write\<close> between \<^verbatim>\<open>http.Error\<close> and the deferred \<^verbatim>\<open>Copy\<close>, the committed status
  is the handler's 200 and its body follows the timeout message.
\<close>

theorem late_status_overrides_timeout:
  "case ServeHTTP exampleTrie exampleEnv lateStatus deadlineRouter NewResponseWriter
          (request ''GET'' ''/deadline'') of
     Served d \<Rightarrow> code d = 200 \<and> buffer d = ''Request Timeout'' @ [CHR 0x0A] @ ''hello''
   | Crashed d v \<Rightarrow> False"
  by code_simp

text \<open>
  C3. Output of the abandoned handler should never reach the client. A handler that has
  written \<^verbatim>\<open>partial-\<close> when the context is cancelled and writes \<^verbatim>\<open>rest\<close> between
  \<^verbatim>\<open>http.Error\<close> and the deferred \<^verbatim>\<open>Copy\<close> has \<^verbatim>\<open>rest\<close> committed to the transport:
  \<^verbatim>\<open>Reset\<close> put a new buffer into the writer the handler still writes to.
\<close>

theorem late_body_is_committed:
  "case ServeHTTP exampleTrie exampleEnv lateBody slowRouter NewResponseWriter
          (request ''GET'' ''/slow'') of
     Served d \<Rightarrow> code d = 500 \<and> buffer d = ''Context canceled'' @ [CHR 0x0A] @ ''rest''
   | Crashed d v \<Rightarrow> False"
  by code_simp

subsection \<open>Ranking\<close>

text \<open>
  C6. A wildcard should rank below every other tag whatever the qualities. \<^verbatim>\<open>less\<close>
  puts a wildcard on its left below anything, and does not look for a wildcard on its
  right: \<^verbatim>\<open>*\<close> with quality 1 and \<^verbatim>\<open>en\<close> with quality 0.5 are each below the other,
  the list \<^verbatim>\<open>*, en;q=0.5\<close> counts as sorted, and the wildcard stays first.
\<close>

theorem wildcard_ranked_first:
  "less \<lparr>Type = ''*'', Q = 1000\<rparr> \<lparr>Type = ''en'', Q = 500\<rparr>
   \<and> less \<lparr>Type = ''en'', Q = 500\<rparr> \<lparr>Type = ''*'', Q = 1000\<rparr>
   \<and> ParseLang exampleEnv ''*, en;q=0.5''
       = Inr [\<lparr>Type = ''*'', Q = 1000\<rparr>, \<lparr>Type = ''en'', Q = 500\<rparr>]"
  by code_simp

subsection \<open>Language fallback\<close>

lemma SplitN2_pair:
  "strings_SplitN2 c s = [a, b] \<longleftrightarrow> (s = a @ c # b \<and> c \<notin> set a)"
proof
  assume h: "strings_SplitN2 c s = [a, b]"
  then have m: "c \<in> set s" by (auto simp add: strings_SplitN2_def split: if_splits)
  from h m have a: "a = takeWhile (\<lambda>x. x \<noteq> c) s" and b: "b = tl (dropWhile (\<lambda>x. x \<noteq> c) s)"
    by (auto simp add: strings_SplitN2_def)
  from m have ne: "dropWhile (\<lambda>x. x \<noteq> c) s \<noteq> []" by (auto simp add: dropWhile_eq_Nil_conv)
  then have "hd (dropWhile (\<lambda>x. x \<noteq> c) s) = c" using hd_dropWhile [of "\<lambda>x. x \<noteq> c" s] by simp
  with ne have "dropWhile (\<lambda>x. x \<noteq> c) s = c # b" unfolding b by (cases "dropWhile (\<lambda>x. x \<noteq> c) s") auto
  then have "s = a @ c # b" unfolding a using takeWhile_dropWhile_id [of "\<lambda>x. x \<noteq> c" s] by simp
  moreover have "c \<notin> set a" unfolding a by (auto dest: set_takeWhileD)
  ultimately show "s = a @ c # b \<and> c \<notin> set a" by simp
next
  assume h: "s = a @ c # b \<and> c \<notin> set a"
  then have na: "\<And>x. x \<in> set a \<Longrightarrow> x \<noteq> c" by blast
  have t: "takeWhile (\<lambda>x. x \<noteq> c) s = a"
    using h takeWhile_append2 [of a "\<lambda>x. x \<noteq> c" "c # b", OF na] by simp
  have d: "dropWhile (\<lambda>x. x \<noteq> c) s = c # b"
    using h dropWhile_append2 [of a "\<lambda>x. x \<noteq> c" "c # b", OF na] by simp
  from h have "c \<in> set s" by simp
  then show "strings_SplitN2 c s = [a, b]" by (simp add: strings_SplitN2_def t d)
qed

lemma IsPresent_mem: "IsPresent tps t \<Longrightarrow> t \<in> Type ` set tps"
proof -
  assume "IsPresent tps t"
  then obtain i where "i < length tps" and "Type (tps ! i) = t"
    unfolding IsPresent_def Let_def by blast
  then show ?thesis using nth_mem [of i tps] by (auto intro: image_eqI)
qed

lemma set_update_subset: "set (AList.update k v m) \<subseteq> insert (k, v) (set m)"
  by (induction m) auto

lemma filter_key_single:
  "distinct (map fst m) \<Longrightarrow> map_of m k = Some v \<Longrightarrow> filter (\<lambda>p. fst p = k) m = [(k, v)]"
proof (induction m)
  case Nil
  then show ?case by simp
next
  case (Cons p m)
  show ?case
  proof (cases "fst p = k")
    case True
    with Cons.prems have "p = (k, v)" by (cases p) auto
    moreover have "k \<notin> fst ` set m" using Cons.prems(1) True by auto
    then have "filter (\<lambda>p. fst p = k) m = []"
      unfolding filter_empty_conv by (metis image_eqI)
    ultimately show ?thesis by simp
  next
    case False
    then show ?thesis using Cons by (cases p) auto
  qed
qed

lemma tpdmapLoop_Cons:
  "tpdmapLoop tps m (tp # rest) =
     tpdmapLoop tps
       (if CHR ''-'' \<in> set (Type tp)
           \<and> \<not> IsPresent tps (takeWhile (\<lambda>x. x \<noteq> CHR ''-'') (Type tp))
        then (case map_of m (takeWhile (\<lambda>x. x \<noteq> CHR ''-'') (Type tp)) of
                Some x \<Rightarrow>
                  (if Q tp > Q x
                   then AList.update (takeWhile (\<lambda>x. x \<noteq> CHR ''-'') (Type tp)) (x\<lparr>Q := Q tp\<rparr>) m
                   else m)
              | None \<Rightarrow> m @ [(takeWhile (\<lambda>x. x \<noteq> CHR ''-'') (Type tp),
                               \<lparr>Type = takeWhile (\<lambda>x. x \<noteq> CHR ''-'') (Type tp), Q = Q tp\<rparr>)])
        else m)
       rest"
proof (cases "CHR ''-'' \<in> set (Type tp)")
  case True
  then have s: "strings_SplitN2 CHR ''-'' (Type tp)
      = [takeWhile (\<lambda>x. x \<noteq> CHR ''-'') (Type tp), tl (dropWhile (\<lambda>x. x \<noteq> CHR ''-'') (Type tp))]"
    by (simp add: strings_SplitN2_def)
  show ?thesis using True by (simp add: Let_def s split: option.splits)
next
  case False
  then have s: "strings_SplitN2 CHR ''-'' (Type tp) = [Type tp]"
    by (simp add: strings_SplitN2_def)
  show ?thesis using False by (simp add: Let_def s)
qed

lemma tpdmapLoop_inv:
  "distinct (map fst m) \<Longrightarrow> (\<forall>p \<in> set m. Type (snd p) = fst p) \<Longrightarrow>
   distinct (map fst (tpdmapLoop tps m rest))
   \<and> (\<forall>p \<in> set (tpdmapLoop tps m rest). Type (snd p) = fst p)"
proof (induction rest arbitrary: m)
  case Nil
  then show ?case by simp
next
  case (Cons tp rest)
  define k where "k = takeWhile (\<lambda>x. x \<noteq> CHR ''-'') (Type tp)"
  define m' where "m' =
       (if CHR ''-'' \<in> set (Type tp) \<and> \<not> IsPresent tps k
        then (case map_of m k of
                Some x \<Rightarrow> (if Q tp > Q x then AList.update k (x\<lparr>Q := Q tp\<rparr>) m else m)
              | None \<Rightarrow> m @ [(k, \<lparr>Type = k, Q = Q tp\<rparr>)])
        else m)"
  have e: "tpdmapLoop tps m (tp # rest) = tpdmapLoop tps m' rest"
    unfolding m'_def k_def by (rule tpdmapLoop_Cons)
  have d: "distinct (map fst m')"
  proof (cases "map_of m k")
    case None
    then have "k \<notin> fst ` set m" by (simp add: map_of_eq_None_iff)
    then show ?thesis using Cons.prems(1) None by (simp add: m'_def)
  next
    case (Some x)
    then show ?thesis using Cons.prems(1) by (simp add: m'_def distinct_update)
  qed
  have i: "\<forall>p \<in> set m'. Type (snd p) = fst p"
  proof (cases "map_of m k")
    case None
    then show ?thesis using Cons.prems(2) by (simp add: m'_def)
  next
    case (Some x)
    then have "(k, x) \<in> set m" by (rule map_of_SomeD)
    then have t: "Type x = k" using Cons.prems(2) by force
    have "\<forall>p \<in> set (AList.update k (x\<lparr>Q := Q tp\<rparr>) m). Type (snd p) = fst p"
    proof
      fix p assume "p \<in> set (AList.update k (x\<lparr>Q := Q tp\<rparr>) m)"
      then have "p = (k, x\<lparr>Q := Q tp\<rparr>) \<or> p \<in> set m"
        using set_update_subset [of k "x\<lparr>Q := Q tp\<rparr>" m] by blast
      then show "Type (snd p) = fst p" using t Cons.prems(2) by auto
    qed
    then show ?thesis using Cons.prems(2) Some by (simp add: m'_def)
  qed
  show ?case unfolding e using Cons.IH [OF d i] .
qed

lemma Max_insert_max:
  "finite S \<Longrightarrow> Max (insert (max a b) S) = Max (insert a (insert b S))"
  for a :: "'a::linorder"
  by (cases "S = {}") (simp_all add: max.assoc)

lemma tpdmapLoop_val:
  assumes np: "\<not> IsPresent tps k"
  shows "map_of (tpdmapLoop tps m rest) k =
     (case map_of m k of
        Some x \<Rightarrow> Some (x\<lparr>Q := Max (insert (Q x) (Q ` set (filter (\<lambda>t. CHR ''-'' \<in> set (Type t)
                        \<and> takeWhile (\<lambda>x. x \<noteq> CHR ''-'') (Type t) = k) rest)))\<rparr>)
      | None \<Rightarrow>
          (if filter (\<lambda>t. CHR ''-'' \<in> set (Type t)
                        \<and> takeWhile (\<lambda>x. x \<noteq> CHR ''-'') (Type t) = k) rest = [] then None
           else Some \<lparr>Type = k, Q = Max (Q ` set (filter (\<lambda>t. CHR ''-'' \<in> set (Type t)
                        \<and> takeWhile (\<lambda>x. x \<noteq> CHR ''-'') (Type t) = k) rest))\<rparr>))"
proof (induction rest arbitrary: m)
  case Nil
  then show ?case by (simp split: option.splits)
next
  case (Cons tp rest)
  define P :: "TypeParam \<Rightarrow> bool" where "P = (\<lambda>t. CHR ''-'' \<in> set (Type t)
                        \<and> takeWhile (\<lambda>x. x \<noteq> CHR ''-'') (Type t) = k)"
  define k' where "k' = takeWhile (\<lambda>x. x \<noteq> CHR ''-'') (Type tp)"
  define m' where "m' =
       (if CHR ''-'' \<in> set (Type tp) \<and> \<not> IsPresent tps k'
        then (case map_of m k' of
                Some x \<Rightarrow> (if Q tp > Q x then AList.update k' (x\<lparr>Q := Q tp\<rparr>) m else m)
              | None \<Rightarrow> m @ [(k', \<lparr>Type = k', Q = Q tp\<rparr>)])
        else m)"
  define S where "S = Q ` set (filter P rest)"
  have fin: "finite S" by (simp add: S_def)
  have e: "tpdmapLoop tps m (tp # rest) = tpdmapLoop tps m' rest"
    unfolding m'_def k'_def by (rule tpdmapLoop_Cons)
  have ih: "map_of (tpdmapLoop tps m' rest) k =
     (case map_of m' k of
        Some x \<Rightarrow> Some (x\<lparr>Q := Max (insert (Q x) S)\<rparr>)
      | None \<Rightarrow> (if filter P rest = [] then None else Some \<lparr>Type = k, Q = Max S\<rparr>))"
    unfolding S_def P_def by (rule Cons.IH)
  have goal: "map_of (tpdmapLoop tps m' rest) k =
     (case map_of m k of
        Some x \<Rightarrow> Some (x\<lparr>Q := Max (insert (Q x) (Q ` set (filter P (tp # rest))))\<rparr>)
      | None \<Rightarrow> (if filter P (tp # rest) = [] then None
                 else Some \<lparr>Type = k, Q = Max (Q ` set (filter P (tp # rest)))\<rparr>))"
  proof (cases "P tp")
    case True
    then have kk: "k' = k" and dash: "CHR ''-'' \<in> set (Type tp)" by (simp_all add: P_def k'_def)
    have f: "Q ` set (filter P (tp # rest)) = insert (Q tp) S" using True by (simp add: S_def)
    show ?thesis
    proof (cases "map_of m k")
      case None
      then have "map_of m' k = Some \<lparr>Type = k, Q = Q tp\<rparr>"
        using np dash by (simp add: m'_def kk map_add_def)
      then show ?thesis unfolding ih using None True f by simp
    next
      case (Some x)
      then have "map_of m' k = Some (x\<lparr>Q := max (Q x) (Q tp)\<rparr>)"
        using np dash by (simp add: m'_def kk update_conv' max_def)
      then show ?thesis unfolding ih using Some f Max_insert_max [OF fin, of "Q x" "Q tp"] by simp
    qed
  next
    case False
    have f: "filter P (tp # rest) = filter P rest" using False by simp
    have "map_of m' k = map_of m k"
    proof (cases "CHR ''-'' \<in> set (Type tp) \<and> \<not> IsPresent tps k'")
      case True
      then have ne: "k' \<noteq> k" using False by (auto simp add: P_def k'_def)
      show ?thesis using True ne by (simp add: m'_def update_conv' map_add_def split: option.splits)
    next
      case False
      then show ?thesis by (auto simp add: m'_def)
    qed
    then show ?thesis unfolding ih f S_def by simp
  qed
  show ?case unfolding e using goal by (simp only: P_def)
qed

lemma region_variant_iff:
  assumes "CHR ''-'' \<notin> set lang"
  shows "(CHR ''-'' \<in> set ty \<and> takeWhile (\<lambda>x. x \<noteq> CHR ''-'') ty = lang)
           \<longleftrightarrow> (\<exists>reg. ty = lang @ ''-'' @ reg)"
proof
  assume a: "CHR ''-'' \<in> set ty \<and> takeWhile (\<lambda>x. x \<noteq> CHR ''-'') ty = lang"
  then have "strings_SplitN2 CHR ''-'' ty = [lang, tl (dropWhile (\<lambda>x. x \<noteq> CHR ''-'') ty)]"
    by (simp add: strings_SplitN2_def)
  then have "ty = lang @ CHR ''-'' # tl (dropWhile (\<lambda>x. x \<noteq> CHR ''-'') ty)"
    by (simp add: SplitN2_pair)
  then show "\<exists>reg. ty = lang @ ''-'' @ reg" by auto
next
  assume "\<exists>reg. ty = lang @ ''-'' @ reg"
  then obtain reg where "ty = lang @ CHR ''-'' # reg" by auto
  then have "strings_SplitN2 CHR ''-'' ty = [lang, reg]" using assms by (simp add: SplitN2_pair)
  then show "CHR ''-'' \<in> set ty \<and> takeWhile (\<lambda>x. x \<noteq> CHR ''-'') ty = lang"
    by (auto simp add: strings_SplitN2_def split: if_splits)
qed

lemma mset_sortIfNeeded:
  "(\<And>xs. mset (sortSort env xs) = mset xs) \<Longrightarrow> mset (sortIfNeeded env tps) = mset tps"
  by (simp add: sortIfNeeded_def)

lemma filter_of_mset_single:
  "mset xs = mset ys \<Longrightarrow> filter P ys = [v] \<Longrightarrow> filter P xs = [v]"
proof -
  assume a: "mset xs = mset ys" and b: "filter P ys = [v]"
  have "mset (filter P xs) = filter_mset P (mset xs)" by simp
  also have "\<dots> = filter_mset P (mset ys)" using a by simp
  also have "\<dots> = mset (filter P ys)" by simp
  also have "\<dots> = {#v#}" using b by simp
  finally show ?thesis by (simp only: mset_single_iff)
qed

text \<open>
  C7. When the header parses, to the tags \<open>tps\<close>: for a tag \<^verbatim>\<open>lang-REGION\<close> among
  them whose bare \<^verbatim>\<open>lang\<close> is the type of no parsed tag, \<^verbatim>\<open>ParseLang\<close> returns the
  parsed tags with the synthesized entries appended, sorted when not in order; among the
  synthesized entries, and in the whole result, exactly one has the type \<^verbatim>\<open>lang\<close>,
  and its quality is the greatest quality of the parsed tags of the form
  \<^verbatim>\<open>lang-REGION\<close>. \<^verbatim>\<open>sort.Sort\<close> and the iteration over the map are taken to
  permute their argument.
\<close>

theorem family_fallback:
  assumes p: "Parse env s = Inr tps"
      and srt: "\<And>xs. mset (sortSort env xs) = mset xs"
      and rng: "\<And>xs. mset (mapRange env xs) = mset xs"
      and tp: "tp \<in> set tps" and ty: "Type tp = lang @ ''-'' @ region"
      and nd: "CHR ''-'' \<notin> set lang"
      and np: "lang \<notin> Type ` set tps"
  shows "\<exists>synth out.
           ParseLang env s = Inr out
           \<and> out = sortIfNeeded env (tps @ synth)
           \<and> mset out = mset tps + mset synth
           \<and> filter (\<lambda>x. Type x = lang) synth
               = [\<lparr>Type = lang, Q = Max (Q ` {t \<in> set tps. \<exists>reg. Type t = lang @ ''-'' @ reg})\<rparr>]
           \<and> filter (\<lambda>x. Type x = lang) out
               = [\<lparr>Type = lang, Q = Max (Q ` {t \<in> set tps. \<exists>reg. Type t = lang @ ''-'' @ reg})\<rparr>]"
proof -
  define m where "m = tpdmapLoop tps [] tps"
  define synth where "synth = mapRange env (map snd m)"
  define out where "out = sortIfNeeded env (tps @ synth)"
  define P :: "TypeParam \<Rightarrow> bool" where "P = (\<lambda>t. CHR ''-'' \<in> set (Type t)
                        \<and> takeWhile (\<lambda>x. x \<noteq> CHR ''-'') (Type t) = lang)"
  define v where "v = \<lparr>Type = lang, Q = Max (Q ` {t \<in> set tps. \<exists>reg. Type t = lang @ ''-'' @ reg})\<rparr>"
  have pl: "ParseLang env s = Inr out"
    by (simp add: ParseLang_def p Let_def out_def synth_def m_def)
  have inv: "distinct (map fst m) \<and> (\<forall>p \<in> set m. Type (snd p) = fst p)"
    unfolding m_def by (rule tpdmapLoop_inv) simp_all
  have nip: "\<not> IsPresent tps lang" using np IsPresent_mem by blast
  have Piff: "P t \<longleftrightarrow> (\<exists>reg. Type t = lang @ ''-'' @ reg)" for t
    unfolding P_def by (rule region_variant_iff [OF nd])
  have "P tp" using ty Piff by blast
  then have ne: "filter P tps \<noteq> []" using tp by (auto simp add: filter_empty_conv)
  have st: "set (filter P tps) = {t \<in> set tps. \<exists>reg. Type t = lang @ ''-'' @ reg}"
    using Piff by auto
  have "map_of m lang = Some \<lparr>Type = lang, Q = Max (Q ` set (filter P tps))\<rparr>"
    unfolding m_def P_def using tpdmapLoop_val [OF nip, of "[]" tps] ne [unfolded P_def] by simp
  then have mv: "map_of m lang = Some v" unfolding st v_def .
  have fk: "filter (\<lambda>p. fst p = lang) m = [(lang, v)]"
    using inv mv by (simp add: filter_key_single)
  have "filter (\<lambda>p. Type (snd p) = lang) m = filter (\<lambda>p. fst p = lang) m"
    using inv by (intro filter_cong) auto
  then have fm: "filter (\<lambda>x. Type x = lang) (map snd m) = [v]"
    using fk by (simp add: filter_map comp_def)
  have ms: "mset synth = mset (map snd m)" unfolding synth_def by (rule rng)
  have fs: "filter (\<lambda>x. Type x = lang) synth = [v]"
    using ms fm by (rule filter_of_mset_single)
  have mo: "mset out = mset tps + mset synth"
    unfolding out_def using mset_sortIfNeeded [of env "tps @ synth"] srt by simp
  have ft: "filter (\<lambda>x. Type x = lang) tps = []"
    using np by (auto simp add: filter_empty_conv)
  have "mset out = mset (tps @ synth)" using mo by simp
  moreover have "filter (\<lambda>x. Type x = lang) (tps @ synth) = [v]" using ft fs by simp
  ultimately have fo: "filter (\<lambda>x. Type x = lang) out = [v]" by (rule filter_of_mset_single)
  show ?thesis
    using pl mo fs fo unfolding v_def out_def by blast
qed

theorem family_fallback_witness:
  "Parse exampleEnv ''pt-br;q=0.5, en, pt-pt;q=0.75''
     = Inr [\<lparr>Type = ''en'', Q = 1000\<rparr>, \<lparr>Type = ''pt-pt'', Q = 750\<rparr>, \<lparr>Type = ''pt-br'', Q = 500\<rparr>]
   \<and> (\<forall>xs. mset (sortSort exampleEnv xs) = mset xs)
   \<and> (\<forall>xs. mset (mapRange exampleEnv xs) = mset xs)
   \<and> \<lparr>Type = ''pt-br'', Q = 500\<rparr>
        \<in> set [\<lparr>Type = ''en'', Q = 1000\<rparr>, \<lparr>Type = ''pt-pt'', Q = 750\<rparr>, \<lparr>Type = ''pt-br'', Q = 500\<rparr>]
   \<and> Type \<lparr>Type = ''pt-br'', Q = 500\<rparr> = ''pt'' @ ''-'' @ ''br''
   \<and> CHR ''-'' \<notin> set ''pt''
   \<and> ''pt'' \<notin> Type ` set [\<lparr>Type = ''en'', Q = 1000\<rparr>, \<lparr>Type = ''pt-pt'', Q = 750\<rparr>,
                              \<lparr>Type = ''pt-br'', Q = 500\<rparr>]
   \<and> (\<exists>synth out.
         ParseLang exampleEnv ''pt-br;q=0.5, en, pt-pt;q=0.75'' = Inr out
         \<and> out = sortIfNeeded exampleEnv
                   ([\<lparr>Type = ''en'', Q = 1000\<rparr>, \<lparr>Type = ''pt-pt'', Q = 750\<rparr>,
                     \<lparr>Type = ''pt-br'', Q = 500\<rparr>] @ synth)
         \<and> filter (\<lambda>x. Type x = ''pt'') synth = [\<lparr>Type = ''pt'', Q = 750\<rparr>]
         \<and> filter (\<lambda>x. Type x = ''pt'') out = [\<lparr>Type = ''pt'', Q = 750\<rparr>])"
proof -
  let ?tps = "[\<lparr>Type = ''en'', Q = 1000\<rparr>, \<lparr>Type = ''pt-pt'', Q = 750\<rparr>, \<lparr>Type = ''pt-br'', Q = 500\<rparr>]"
  have p: "Parse exampleEnv ''pt-br;q=0.5, en, pt-pt;q=0.75'' = Inr ?tps" by code_simp
  have srt: "mset (sortSort exampleEnv xs) = mset xs" for xs
    by (simp add: exampleEnv_def insertionSort_mset)
  have rng: "mset (mapRange exampleEnv xs) = mset xs" for xs
    by (simp add: exampleEnv_def)
  have tp: "\<lparr>Type = ''pt-br'', Q = 500\<rparr> \<in> set ?tps" by simp
  have ty: "Type \<lparr>Type = ''pt-br'', Q = 500\<rparr> = ''pt'' @ ''-'' @ ''br''" by simp
  have nd: "CHR ''-'' \<notin> set ''pt''" by simp
  have np: "''pt'' \<notin> Type ` set ?tps" by simp
  have vs: "{t \<in> set ?tps. \<exists>reg. Type t = ''pt'' @ ''-'' @ reg}
              = {\<lparr>Type = ''pt-pt'', Q = 750\<rparr>, \<lparr>Type = ''pt-br'', Q = 500\<rparr>}"
    by auto
  have mx: "Max (Q ` {t \<in> set ?tps. \<exists>reg. Type t = ''pt'' @ ''-'' @ reg}) = 750"
    unfolding vs by simp
  from family_fallback [OF p srt rng tp ty nd np]
  have "\<exists>synth out.
         ParseLang exampleEnv ''pt-br;q=0.5, en, pt-pt;q=0.75'' = Inr out
         \<and> out = sortIfNeeded exampleEnv (?tps @ synth)
         \<and> filter (\<lambda>x. Type x = ''pt'') synth = [\<lparr>Type = ''pt'', Q = 750\<rparr>]
         \<and> filter (\<lambda>x. Type x = ''pt'') out = [\<lparr>Type = ''pt'', Q = 750\<rparr>]"
    unfolding mx by blast
  then show ?thesis using p srt rng tp ty nd np by blast
qed

end
